theory Spec2Isabelle
  imports Main "HOL-Library.Word"
begin

section \<open>The portal handle\<close>

text \<open>
  \<open>XdpPortal\<close> is declared in portal-private.h; the functions modelled here use its
  bus connection (shared, represented by the bus actions they perform) and its unique
  sender name. Where a function checks \<open>XDP_IS_PORTAL (portal)\<close>, its portal argument
  is an option and \<open>None\<close> fails the check.
\<close>

record XdpPortal =
  sender :: string

section \<open>Payload values exchanged with the broker\<close>

text \<open>
  The wire codec (GVariant) is an external collaborator. The model works on decoded
  payloads: a result map \<open>a{sv}\<close> is an association list from keys to typed values, in
  wire order; a lookup finds the first entry of the key and succeeds only when the value
  has the type the format string asks for (\<open>"b"\<close>, \<open>"h"\<close>, \<open>"&s"\<close>).
\<close>

datatype gvariant = VBool bool | VHandle "32 word" | VString string

type_synonym vardict = "(string \<times> gvariant) list"

definition g_variant_lookup_b :: "vardict \<Rightarrow> string \<Rightarrow> bool option" where
  "g_variant_lookup_b d k = (case map_of d k of Some (VBool b) \<Rightarrow> Some b | _ \<Rightarrow> None)"

definition g_variant_lookup_h :: "vardict \<Rightarrow> string \<Rightarrow> 32 word option" where
  "g_variant_lookup_h d k = (case map_of d k of Some (VHandle h) \<Rightarrow> Some h | _ \<Rightarrow> None)"

definition g_variant_lookup_s :: "vardict \<Rightarrow> string \<Rightarrow> string option" where
  "g_variant_lookup_s d k = (case map_of d k of Some (VString s) \<Rightarrow> Some s | _ \<Rightarrow> None)"

text \<open>
  A lookup that succeeds stores the value through the pointer it is given. The pointer
  arguments for a descriptor are told apart: the address of a local (which holds some
  old value), or an integer value passed where an address is expected. Storing through
  the first gives the local its new value; storing through the second is an invalid
  access, \<open>None\<close>.
\<close>

datatype target = AddressOf "32 word" | ValueOf "32 word"

fun store_handle :: "target \<Rightarrow> 32 word \<Rightarrow> 32 word option" where
  "store_handle (AddressOf old) h = Some h"
| "store_handle (ValueOf v) h = None"

text \<open>Errors of the GIO error domain, with their message.\<close>

datatype g_io_error_enum = G_IO_ERROR_FAILED | G_IO_ERROR_CANCELLED | G_IO_ERROR_OTHER nat

datatype gerror = GError g_io_error_enum string

section \<open>Acquired devices (usb.c, XdpUsbDevice)\<close>

text \<open>
  \<open>error\<close> is a nullable C string: \<open>None\<close> is \<open>NULL\<close>. The field \<open>id\<close> of the source is
  \<open>usb_id\<close> here.
\<close>

record XdpUsbDevice =
  usb_id :: string
  success :: bool
  fd :: "32 word"
  error :: "string option"

definition xdp_usb_device_new :: "string \<Rightarrow> 32 word \<Rightarrow> XdpUsbDevice" where
  "xdp_usb_device_new i f = \<lparr>usb_id = i, success = True, fd = f, error = None\<rparr>"

definition xdp_usb_device_error_new :: "string \<Rightarrow> string option \<Rightarrow> XdpUsbDevice" where
  "xdp_usb_device_error_new i e = \<lparr>usb_id = i, success = False, fd = - 1, error = e\<rparr>"

section \<open>The finishing query (usb.c, xdp\_portal\_usb\_finish\_acquire\_devices)\<close>

text \<open>
  The body of the iteration in \<open>append_variant_to_fd_list\<close>: the three locals start as
  \<open>NULL\<close>, \<open>-1\<close> and \<open>FALSE\<close>, each lookup overwrites its local only when it succeeds
  (line 591 passes \<open>&fd\<close>).
\<close>

definition device_of_entry :: "string \<times> vardict \<Rightarrow> XdpUsbDevice" where
  "device_of_entry e =
     (let i = fst e; device = snd e;
          err = g_variant_lookup_s device ''error'';
          f = (case g_variant_lookup_h device ''fd'' of
                 None \<Rightarrow> - 1
               | Some h \<Rightarrow> (case store_handle (AddressOf (- 1)) h of
                             None \<Rightarrow> - 1
                           | Some fd' \<Rightarrow> fd'));
          ok = (case g_variant_lookup_b device ''success'' of Some b \<Rightarrow> b | None \<Rightarrow> False)
      in if ok then xdp_usb_device_new i f else xdp_usb_device_error_new i err)"

text \<open>
  \<open>g_return_val_if_fail (fd_list_variant, fd_list)\<close>: a \<open>NULL\<close> variant leaves the list
  as it is. Otherwise one record is appended per entry, in order. The page is given as
  its decoded entries: the model follows the body of the loop (lines 585 to 599) and
  not GLib into \<open>g_variant_iter_next\<close> with the format string of line 583, nor into the
  cleanups of the locals \<open>device\<close> and \<open>iter\<close> (lines 577 and 579), which have no
  initialiser.
\<close>

fun append_variant_to_fd_list ::
  "XdpUsbDevice list \<Rightarrow> (string \<times> vardict) list option \<Rightarrow> XdpUsbDevice list" where
  "append_variant_to_fd_list fd_list None = fd_list"
| "append_variant_to_fd_list fd_list (Some []) = fd_list"
| "append_variant_to_fd_list fd_list (Some (e # es)) =
     append_variant_to_fd_list (fd_list @ [device_of_entry e]) (Some es)"

text \<open>
  One synchronous \<open>AcquireDevicesFinish\<close> round trip either fails (the call returns
  \<open>NULL\<close> and reports an error) or yields a page: its entries and the finished flag.
  The broker is the function giving the reply to the n-th round trip.
\<close>

datatype page_reply = CallFailed gerror | PageReply "(string \<times> vardict) list" bool

text \<open>An error location that is already set keeps its first error.\<close>

definition g_set_error :: "gerror option \<Rightarrow> gerror \<Rightarrow> gerror option" where
  "g_set_error loc e = (case loc of None \<Rightarrow> Some e | Some e0 \<Rightarrow> Some e0)"

text \<open>
  The \<open>while (!finished)\<close> loop. Its state is the flag, the list, the caller's error
  location and the number of round trips made so far. The loop has no bound in the
  source, so it is a partial function: \<open>None\<close> means that it never returns. The model
  follows the control flow of the loop and takes a round trip that succeeds as the page
  the broker sent, decoded; it does not follow GLib into \<open>g_variant_builder_end\<close> on the
  builder that line 630 initialises once and line 644 ends in every iteration, nor into
  \<open>g_variant_get\<close> with the format string of line 651.
\<close>

partial_function (option) finish_acquire_loop ::
  "(nat \<Rightarrow> page_reply) \<Rightarrow> nat \<Rightarrow> bool \<Rightarrow> XdpUsbDevice list \<Rightarrow> gerror option
     \<Rightarrow> (XdpUsbDevice list \<times> gerror option \<times> nat) option" where
  "finish_acquire_loop broker n finished fd_list err =
     (if finished then Some (fd_list, err, n)
      else (case broker n of
              CallFailed e \<Rightarrow>
                finish_acquire_loop broker (Suc n) finished fd_list (g_set_error err e)
            | PageReply fd_list_variant finished_variant \<Rightarrow>
                finish_acquire_loop broker (Suc n) (finished \<or> finished_variant)
                  (append_variant_to_fd_list fd_list (Some fd_list_variant)) err))"

text \<open>
  \<open>fd_list\<close> is declared without an initialiser (usb.c line 627) and is first read at
  line 652, so the value it starts with is not fixed by the program: it is the
  parameter \<open>fd_list0\<close> of the model, and \<open>[]\<close> is the \<open>NULL\<close> list. The caller's
  error location starts empty. The result is the returned list, the error location and
  the number of round trips. Without a valid portal the function returns \<open>NULL\<close>, the
  empty list, at once.
\<close>

definition xdp_portal_usb_finish_acquire_devices ::
  "XdpPortal option \<Rightarrow> XdpUsbDevice list \<Rightarrow> (nat \<Rightarrow> page_reply)
     \<Rightarrow> (XdpUsbDevice list \<times> gerror option \<times> nat) option" where
  "xdp_portal_usb_finish_acquire_devices po fd_list0 broker =
     (case po of
        None \<Rightarrow> Some ([], None, 0)
      | Some p \<Rightarrow> finish_acquire_loop broker 0 False fd_list0 None)"

text \<open>The entries a reply carries.\<close>

fun page_entries :: "page_reply \<Rightarrow> (string \<times> vardict) list" where
  "page_entries (CallFailed e) = []"
| "page_entries (PageReply es f) = es"

section \<open>Device acquire requests in memory (usb.c, XdpUsbDeviceAcquireRequest)\<close>

text \<open>
  The caller's request array and the copy the workflow keeps are distinct objects that
  may be freed independently, so requests live in an explicit store. A nullable pointer
  is an \<open>addr option\<close>. Allocation hands out the next unused address. A function that
  reads through a pointer that does not hold the expected object returns \<open>None\<close>.
\<close>

type_synonym addr = nat

datatype obj =
    Str string
  | Req "addr option" bool
  | PtrArray "addr list" bool

text \<open>
  \<open>Req\<close> is \<open>struct _XdpUsbDeviceAcquireRequest\<close>: the pointer \<open>id\<close> and the flag
  \<open>writable\<close>. \<open>PtrArray\<close> is a \<open>GPtrArray\<close>: its elements, and whether it has an
  element free function.
\<close>

record memory =
  cells :: "addr \<rightharpoonup> obj"
  brk :: addr

definition g_malloc :: "obj \<Rightarrow> memory \<Rightarrow> addr \<times> memory" where
  "g_malloc ob m = (brk m, \<lparr>cells = (cells m)(brk m \<mapsto> ob), brk = Suc (brk m)\<rparr>)"

definition g_free :: "addr option \<Rightarrow> memory \<Rightarrow> memory" where
  "g_free p m = (case p of None \<Rightarrow> m | Some a \<Rightarrow> m\<lparr>cells := (cells m)(a := None)\<rparr>)"

definition g_strdup :: "addr option \<Rightarrow> memory \<Rightarrow> (addr option \<times> memory) option" where
  "g_strdup str m =
     (case str of
        None \<Rightarrow> Some (None, m)
      | Some a \<Rightarrow>
          (case cells m a of
             Some (Str s) \<Rightarrow> (let (p, m') = g_malloc (Str s) m in Some (Some p, m'))
           | _ \<Rightarrow> None))"

definition xdp_usb_device_acquire_request_new ::
  "addr option \<Rightarrow> bool \<Rightarrow> memory \<Rightarrow> (addr \<times> memory) option" where
  "xdp_usb_device_acquire_request_new ident writable m =
     (let (dev, m1) = g_malloc (Req None writable) m
      in case g_strdup ident m1 of
           None \<Rightarrow> None
         | Some (s, m2) \<Rightarrow> Some (dev, m2\<lparr>cells := (cells m2)(dev \<mapsto> Req s writable)\<rparr>))"

definition xdp_usb_device_acquire_request_copy ::
  "addr \<Rightarrow> memory \<Rightarrow> (addr \<times> memory) option" where
  "xdp_usb_device_acquire_request_copy source m =
     (case cells m source of
        Some (Req i w) \<Rightarrow> xdp_usb_device_acquire_request_new i w m
      | _ \<Rightarrow> None)"

text \<open>\<open>g_return_if_fail (device)\<close>: a \<open>NULL\<close> device changes nothing.\<close>

definition xdp_usb_device_acquire_request_free :: "addr option \<Rightarrow> memory \<Rightarrow> memory option" where
  "xdp_usb_device_acquire_request_free device m =
     (case device of
        None \<Rightarrow> Some m
      | Some d \<Rightarrow>
          (case cells m d of
             Some (Req i w) \<Rightarrow> Some (g_free (Some d) (g_free i m))
           | _ \<Rightarrow> None))"

definition usb_device_acquire_request_copy :: "addr \<Rightarrow> memory \<Rightarrow> (addr \<times> memory) option" where
  "usb_device_acquire_request_copy source m = xdp_usb_device_acquire_request_copy source m"

text \<open>
  \<open>g_ptr_array_copy (devices, usb_device_acquire_request_copy, NULL)\<close>: a new array with
  the free function of the old one, filled with the copy of each element, in order.
\<close>

fun copy_elements :: "addr list \<Rightarrow> memory \<Rightarrow> (addr list \<times> memory) option" where
  "copy_elements [] m = Some ([], m)"
| "copy_elements (p # ps) m =
     (case usb_device_acquire_request_copy p m of
        None \<Rightarrow> None
      | Some (q, m1) \<Rightarrow>
          (case copy_elements ps m1 of
             None \<Rightarrow> None
           | Some (qs, m2) \<Rightarrow> Some (q # qs, m2)))"

definition g_ptr_array_copy :: "addr \<Rightarrow> memory \<Rightarrow> (addr \<times> memory) option" where
  "g_ptr_array_copy array m =
     (case cells m array of
        Some (PtrArray ps ff) \<Rightarrow>
          (let (na, m1) = g_malloc (PtrArray [] ff) m
           in case copy_elements ps m1 of
                None \<Rightarrow> None
              | Some (qs, m2) \<Rightarrow> Some (na, m2\<lparr>cells := (cells m2)(na \<mapsto> PtrArray qs ff)\<rparr>))
      | _ \<Rightarrow> None)"

text \<open>
  \<open>g_ptr_array_free (array, TRUE)\<close> releases the array, and its elements when it has an
  element free function, taken to be \<open>xdp_usb_device_acquire_request_free\<close>. Pointers
  that do not hold the expected object are left alone.
\<close>

definition free_element :: "addr \<Rightarrow> memory \<Rightarrow> memory" where
  "free_element p m =
     (case xdp_usb_device_acquire_request_free (Some p) m of None \<Rightarrow> m | Some m' \<Rightarrow> m')"

definition g_ptr_array_free :: "addr \<Rightarrow> memory \<Rightarrow> memory" where
  "g_ptr_array_free array m =
     (case cells m array of
        Some (PtrArray ps ff) \<Rightarrow> g_free (Some array) (if ff then fold free_element ps m else m)
      | _ \<Rightarrow> m)"

text \<open>
  \<open>add_to_variant\<close> reads one request and adds \<open>(id, {writable})\<close> to the builder;
  \<open>g_ptr_array_foreach\<close> runs it over the array.
\<close>

definition add_to_variant ::
  "addr \<Rightarrow> memory \<Rightarrow> (string \<times> vardict) list \<Rightarrow> (string \<times> vardict) list option" where
  "add_to_variant dev m builder =
     (case cells m dev of
        Some (Req (Some s) w) \<Rightarrow>
          (case cells m s of
             Some (Str i) \<Rightarrow> Some (builder @ [(i, [(''writable'', VBool w)])])
           | _ \<Rightarrow> None)
      | _ \<Rightarrow> None)"

fun foreach_add_to_variant ::
  "addr list \<Rightarrow> memory \<Rightarrow> (string \<times> vardict) list \<Rightarrow> (string \<times> vardict) list option" where
  "foreach_add_to_variant [] m builder = Some builder"
| "foreach_add_to_variant (p # ps) m builder =
     (case add_to_variant p m builder of
        None \<Rightarrow> None
      | Some builder' \<Rightarrow> foreach_add_to_variant ps m builder')"

definition devices_variant :: "addr \<Rightarrow> memory \<Rightarrow> (string \<times> vardict) list option" where
  "devices_variant array m =
     (case cells m array of
        Some (PtrArray ps ff) \<Rightarrow> foreach_add_to_variant ps m []
      | _ \<Rightarrow> None)"

text \<open>
  A store is in order when nothing lives at or above the next unused address.
\<close>

definition heap_ok :: "memory \<Rightarrow> bool" where
  "heap_ok m = (\<forall>a. brk m \<le> a \<longrightarrow> cells m a = None)"

section \<open>The call context and its surroundings (usb.c, UsbCall)\<close>

text \<open>A \<open>GTask\<close> carries the caller's optional cancellable.\<close>

datatype XdpParent = XdpParent nat

datatype GCancellable = GCancellable nat

record GTask =
  task_cancellable :: "GCancellable option"

definition g_task_get_cancellable :: "GTask \<Rightarrow> GCancellable option" where
  "g_task_get_cancellable t = task_cancellable t"

record UsbCall =
  portal :: XdpPortal
  task :: GTask
  signal_id :: nat
  request_path :: "string option"
  cancelled_id :: nat
  session :: "addr option"
  parent :: "XdpParent option"
  parent_handle :: "string option"
  devices :: "addr option"

text \<open>
  What the program does to the outside, in order: bus traffic, signal connections,
  the results handed to the task, the release of the context, and the accesses that
  have no defined behaviour in C (through an invalid or indeterminate pointer, or to
  the context after its release). \<open>CallCreateSession\<close> carries the options and the
  cancellable given to the method call. \<open>TaskReturnSession\<close> stands for the USB Session
  that \<open>_xdp_usb_session_new\<close> builds for a portal and a session path (the section on
  USB sessions follows that function).
\<close>

datatype action =
    ParentExport XdpParent
  | SignalSubscribe nat string
  | SignalUnsubscribe nat
  | HandlerConnect nat
  | HandlerDisconnect nat
  | CallAcquireDevices string "(string \<times> vardict) list" vardict
  | CallCreateSession vardict "GCancellable option"
  | CallClose "string option"
  | TaskReturnPointer "32 word list"
  | TaskReturnSession XdpPortal string
  | TaskReturnError gerror
  | CallFree
  | InvalidAccess
  | UseAfterFree

text \<open>
  The state of one asynchronous operation and of the event loop around it.
  \<open>call\<close> is the context, \<open>None\<close> once \<open>g_free (call)\<close> has run. The next fields
  are the registrations the bus and GLib hold for it: the Response subscriptions
  (id and object path), the handlers connected to the cancellable, whether the
  method call awaits its reply, whether that pending method call has been cancelled
  through a cancellable of its own, whether a parent export awaits its callback. Ids
  handed out by the bus and by GLib are never 0. \<open>random\<close> is the value
  \<open>g_random_int_range\<close> returns. \<open>crashed\<close> is set by an access without defined
  behaviour, after which nothing more is observed.
\<close>

record world =
  call :: "UsbCall option"
  mem :: memory
  signals :: "(nat \<times> string) list"
  handlers :: "nat list"
  reply_pending :: bool
  reply_cancelled :: bool
  export_pending :: bool
  next_id :: nat
  random :: nat
  crashed :: bool
  trace :: "action list"

definition emit :: "action \<Rightarrow> world \<Rightarrow> world" where
  "emit a w = w\<lparr>trace := trace w @ [a]\<rparr>"

definition fault :: "action \<Rightarrow> world \<Rightarrow> world" where
  "fault a w = w\<lparr>crashed := True, trace := trace w @ [a]\<rparr>"

definition g_dbus_connection_signal_subscribe :: "string \<Rightarrow> world \<Rightarrow> nat \<times> world" where
  "g_dbus_connection_signal_subscribe path w =
     (next_id w,
      emit (SignalSubscribe (next_id w) path)
        (w\<lparr>signals := signals w @ [(next_id w, path)], next_id := Suc (next_id w)\<rparr>))"

definition g_dbus_connection_signal_unsubscribe :: "nat \<Rightarrow> world \<Rightarrow> world" where
  "g_dbus_connection_signal_unsubscribe i w =
     emit (SignalUnsubscribe i) (w\<lparr>signals := filter (\<lambda>s. fst s \<noteq> i) (signals w)\<rparr>)"

definition g_signal_connect :: "world \<Rightarrow> nat \<times> world" where
  "g_signal_connect w =
     (next_id w,
      emit (HandlerConnect (next_id w))
        (w\<lparr>handlers := handlers w @ [next_id w], next_id := Suc (next_id w)\<rparr>))"

definition g_signal_handler_disconnect :: "nat \<Rightarrow> world \<Rightarrow> world" where
  "g_signal_handler_disconnect i w =
     emit (HandlerDisconnect i) (w\<lparr>handlers := removeAll i (handlers w)\<rparr>)"

text \<open>
  A resolution is a result handed to the task. What the task does with it when the
  caller collects the result is GLib's business.
\<close>

definition g_task_return_pointer :: "32 word list \<Rightarrow> world \<Rightarrow> world" where
  "g_task_return_pointer device_list w = emit (TaskReturnPointer device_list) w"

definition g_task_return_session :: "XdpPortal \<Rightarrow> string \<Rightarrow> world \<Rightarrow> world" where
  "g_task_return_session po session_path w = emit (TaskReturnSession po session_path) w"

definition g_task_return_error :: "gerror \<Rightarrow> world \<Rightarrow> world" where
  "g_task_return_error e w = emit (TaskReturnError e) w"

definition g_task_return_new_error :: "g_io_error_enum \<Rightarrow> string \<Rightarrow> world \<Rightarrow> world" where
  "g_task_return_new_error code msg w = g_task_return_error (GError code msg) w"

text \<open>
  \<open>usb_call_free\<close>: both registrations are dropped when their id is set, the device
  array is released, then the context itself. A context without a device array (that
  of CreateSession) hands \<open>NULL\<close> to \<open>g_ptr_array_free\<close>, which rejects it and frees
  nothing.
\<close>

definition usb_call_free :: "UsbCall \<Rightarrow> world \<Rightarrow> world" where
  "usb_call_free c w =
     (let w1 = (if signal_id c \<noteq> 0
                then g_dbus_connection_signal_unsubscribe (signal_id c) w else w);
          w2 = (if cancelled_id c \<noteq> 0
                then g_signal_handler_disconnect (cancelled_id c) w1 else w1);
          w3 = w2\<lparr>mem := (case devices c of
                             None \<Rightarrow> mem w2
                           | Some array \<Rightarrow> g_ptr_array_free array (mem w2))\<rparr>
      in emit CallFree (w3\<lparr>call := None\<rparr>))"

text \<open>
  The cancellation hook is detached, and its id cleared, by the handlers that resolve
  the task themselves.
\<close>

definition detach_cancelled :: "UsbCall \<Rightarrow> world \<Rightarrow> UsbCall \<times> world" where
  "detach_cancelled c w =
     (if cancelled_id c \<noteq> 0
      then (c\<lparr>cancelled_id := 0\<rparr>, g_signal_handler_disconnect (cancelled_id c) w)
      else (c, w))"

section \<open>The Response handler (usb.c, acquire\_response\_received)\<close>

text \<open>
  The loop over the devices of the Response: \<open>fd\<close> starts as \<open>-1\<close>; a device with
  \<open>success = true\<close> and a descriptor has the descriptor stored, then \<open>fd\<close> appended.
  Line 361 of usb.c hands \<open>g_variant_lookup\<close> the value of \<open>fd\<close> where the address of
  \<open>fd\<close> is expected, so the store has no valid target; \<open>None\<close> is that invalid store.
  The status and the device array are taken as the decoded content of the signal
  parameters: the model follows the handler from line 349 on and not GLib into
  \<open>g_variant_get\<close> with the format string of line 347 (which names a string where the
  status, a \<open>guint32\<close>, is stored) or into \<open>g_variant_iter_next\<close> with that of line 355.
\<close>

fun acquire_response_devices ::
  "(string \<times> vardict) list \<Rightarrow> 32 word list \<Rightarrow> 32 word list option" where
  "acquire_response_devices [] device_list = Some device_list"
| "acquire_response_devices ((device_id, device) # rest) device_list =
     (if g_variant_lookup_b device ''success'' = Some True
      then (case g_variant_lookup_h device ''fd'' of
              None \<Rightarrow> acquire_response_devices rest device_list
            | Some h \<Rightarrow>
                (case store_handle (ValueOf (- 1)) h of
                   None \<Rightarrow> None
                 | Some fd' \<Rightarrow> acquire_response_devices rest (device_list @ [fd'])))
      else acquire_response_devices rest device_list)"

definition acquire_response_received ::
  "32 word \<Rightarrow> (string \<times> vardict) list \<Rightarrow> world \<Rightarrow> world" where
  "acquire_response_received response devs w =
     (case call w of
        None \<Rightarrow> fault UseAfterFree w
      | Some c \<Rightarrow>
          (let (c1, w1) = detach_cancelled c w
           in if response = 0
              then (case acquire_response_devices devs [] of
                      None \<Rightarrow> fault InvalidAccess (w1\<lparr>call := Some c1\<rparr>)
                    | Some device_list \<Rightarrow>
                        usb_call_free c1 (g_task_return_pointer device_list w1))
              else if response = 1
              then usb_call_free c1
                     (g_task_return_new_error G_IO_ERROR_CANCELLED
                        ''Acquire USB devices canceled'' w1)
              else usb_call_free c1
                     (g_task_return_new_error G_IO_ERROR_FAILED
                        ''Acquire USB devices failed'' w1)))"

section \<open>Cancellation and the reply of the method call\<close>

definition acquire_cancelled_cb :: "world \<Rightarrow> world" where
  "acquire_cancelled_cb w =
     (case call w of
        None \<Rightarrow> fault UseAfterFree w
      | Some c \<Rightarrow>
          usb_call_free c
            (g_task_return_new_error G_IO_ERROR_CANCELLED
               ''Acquire USB devices call canceled by caller''
               (emit (CallClose (request_path c)) w)))"

text \<open>
  \<open>usb_call_returned\<close> touches the context only when the method call failed.
\<close>

definition usb_call_returned :: "gerror option \<Rightarrow> world \<Rightarrow> world" where
  "usb_call_returned err w =
     (case err of
        None \<Rightarrow> w
      | Some e \<Rightarrow>
          (case call w of
             None \<Rightarrow> fault UseAfterFree w
           | Some c \<Rightarrow>
               (let (c1, w1) = detach_cancelled c w
                in usb_call_free c1 (g_task_return_error e w1))))"

section \<open>Submitting the request (usb.c, acquire\_devices)\<close>

definition digit :: "nat \<Rightarrow> char" where
  "digit d = ''0123456789'' ! d"

fun decimal :: "nat \<Rightarrow> string" where
  "decimal n = (if n < 10 then [digit n] else decimal (n div 10) @ [digit (n mod 10)])"

declare decimal.simps [simp del]

definition portal_token :: "nat \<Rightarrow> string" where
  "portal_token r = ''portal'' @ decimal r"

text \<open>
  \<open>REQUEST_PATH_PREFIX\<close> is a macro of portal-private.h; it is the parameter \<open>pfx\<close>.
  Without a handle the parent export is started and the function returns at line 420.
  The locals \<open>options\<close> and \<open>devices\<close> are \<open>g_autoptr\<close> variables without an
  initialiser (lines 410 and 411; \<open>token\<close>, line 414, has one), and this return runs
  their cleanups: \<open>g_variant_unref\<close> on two indeterminate pointers, an access without
  defined behaviour, after the export has been started. With a handle both locals are
  assigned before the function returns: the token, the request path, the Response
  subscription, the cancellation hook, the payload, and the method call, in this order.
  \<open>g_ptr_array_foreach\<close> rejects a \<open>NULL\<close> array and adds nothing.
\<close>

definition acquire_devices :: "string \<Rightarrow> world \<Rightarrow> world" where
  "acquire_devices pfx w =
     (case call w of
        None \<Rightarrow> fault UseAfterFree w
      | Some c \<Rightarrow>
          (case parent_handle c of
             None \<Rightarrow>
               (case parent c of
                  None \<Rightarrow> fault InvalidAccess w
                | Some p \<Rightarrow>
                    fault InvalidAccess (emit (ParentExport p) (w\<lparr>export_pending := True\<rparr>)))
           | Some handle \<Rightarrow>
               (let token = portal_token (random w);
                    path = pfx @ sender (portal c) @ ''/'' @ token;
                    (sid, w1) = g_dbus_connection_signal_subscribe path w;
                    (cid, w2) = (case g_task_get_cancellable (task c) of
                                   None \<Rightarrow> (cancelled_id c, w1)
                                 | Some cancellable \<Rightarrow> g_signal_connect w1);
                    c' = c\<lparr>request_path := Some path, signal_id := sid, cancelled_id := cid\<rparr>;
                    w3 = w2\<lparr>call := Some c'\<rparr>
                in case (case devices c' of
                           None \<Rightarrow> Some []
                         | Some array \<Rightarrow> devices_variant array (mem w3)) of
                     None \<Rightarrow> fault InvalidAccess w3
                   | Some devs \<Rightarrow>
                       emit (CallAcquireDevices handle devs [(''handle_token'', VString token)])
                         (w3\<lparr>reply_pending := True\<rparr>))))"

definition parent_exported :: "string \<Rightarrow> string option \<Rightarrow> world \<Rightarrow> world" where
  "parent_exported pfx handle w =
     (case call w of
        None \<Rightarrow> fault UseAfterFree w
      | Some c \<Rightarrow> acquire_devices pfx (w\<lparr>call := Some (c\<lparr>parent_handle := handle\<rparr>)\<rparr>))"

text \<open>
  \<open>xdp_portal_usb_acquire_devices\<close>: \<open>g_return_if_fail (XDP_IS_PORTAL (portal))\<close>, then
  the context is filled in (the model builds it in one step) and \<open>acquire_devices\<close>
  runs.
\<close>

definition xdp_portal_usb_acquire_devices ::
  "string \<Rightarrow> XdpPortal option \<Rightarrow> XdpParent option \<Rightarrow> addr \<Rightarrow> GCancellable option
     \<Rightarrow> world \<Rightarrow> world" where
  "xdp_portal_usb_acquire_devices pfx po par devs cancellable w =
     (case po of
        None \<Rightarrow> w
      | Some p \<Rightarrow>
          (case g_ptr_array_copy devs (mem w) of
             None \<Rightarrow> fault InvalidAccess w
           | Some (copy, m') \<Rightarrow>
               acquire_devices pfx
                 (w\<lparr>mem := m',
                    call := Some \<lparr>portal = p, task = \<lparr>task_cancellable = cancellable\<rparr>,
                                  signal_id = 0, request_path = None, cancelled_id = 0,
                                  session = None, parent = par,
                                  parent_handle = (case par of Some x \<Rightarrow> None | None \<Rightarrow> Some []),
                                  devices = Some copy\<rparr>\<rparr>)))"

section \<open>The event loop around an AcquireDevices call\<close>

text \<open>
  What the surroundings can deliver: a Response signal on an object path, the
  cancellation of the cancellable, the reply of the AcquireDevices method call (an
  error or none), the callback of the parent export (with a handle, possibly \<open>NULL\<close>).
  A callback runs only while it is registered. The method call is made without a
  cancellable (line 456), so a cancellation does not touch the pending reply.
\<close>

datatype event =
    Response string "32 word" "(string \<times> vardict) list"
  | Cancelled
  | Returned "gerror option"
  | ParentExported "string option"

definition deliver :: "string \<Rightarrow> event \<Rightarrow> world \<Rightarrow> world" where
  "deliver pfx ev w =
     (if crashed w then w
      else case ev of
             Response path status devs \<Rightarrow>
               if path \<in> snd ` set (signals w) then acquire_response_received status devs w else w
           | Cancelled \<Rightarrow> if handlers w = [] then w else acquire_cancelled_cb w
           | Returned err \<Rightarrow>
               if reply_pending w then usb_call_returned err (w\<lparr>reply_pending := False\<rparr>) else w
           | ParentExported handle \<Rightarrow>
               if export_pending w then parent_exported pfx handle (w\<lparr>export_pending := False\<rparr>)
               else w)"

definition run :: "string \<Rightarrow> event list \<Rightarrow> world \<Rightarrow> world" where
  "run pfx evs w = foldl (\<lambda>w' ev. deliver pfx ev w') w evs"

definition world0 :: "memory \<Rightarrow> nat \<Rightarrow> world" where
  "world0 m r =
     \<lparr>call = None, mem = m, signals = [], handlers = [], reply_pending = False,
      reply_cancelled = False, export_pending = False, next_id = 1, random = r,
      crashed = False, trace = []\<rparr>"

text \<open>The caller releases its own array with \<open>g_ptr_array_free\<close>.\<close>

definition caller_frees :: "addr \<Rightarrow> world \<Rightarrow> world" where
  "caller_frees array w = w\<lparr>mem := g_ptr_array_free array (mem w)\<rparr>"

section \<open>Creating a session (usb.c, create\_session)\<close>









section \<open>Observations on traces and the phases of an acquisition\<close>

definition is_resolution :: "action \<Rightarrow> bool" where
  "is_resolution a =
     (case a of
        TaskReturnPointer l \<Rightarrow> True
      | TaskReturnSession po path \<Rightarrow> True
      | TaskReturnError e \<Rightarrow> True
      | _ \<Rightarrow> False)"

definition is_request :: "action \<Rightarrow> bool" where
  "is_request a = (case a of CallAcquireDevices h d opts \<Rightarrow> True | _ \<Rightarrow> False)"

definition resolutions :: "action list \<Rightarrow> action list" where
  "resolutions tr = filter is_resolution tr"

definition requests :: "action list \<Rightarrow> action list" where
  "requests tr = filter is_request tr"

text \<open>The correlation object path of the call, and the id of its cancellation hook.\<close>

definition path_of :: "string \<Rightarrow> XdpPortal \<Rightarrow> nat \<Rightarrow> string" where
  "path_of pfx po r = pfx @ sender po @ ''/'' @ portal_token r"

definition hook_id :: "GCancellable option \<Rightarrow> nat" where
  "hook_id cn = (case cn of None \<Rightarrow> 0 | Some x \<Rightarrow> 2)"

definition hook_list :: "GCancellable option \<Rightarrow> nat list" where
  "hook_list cn = (case cn of None \<Rightarrow> [] | Some x \<Rightarrow> [2])"

text \<open>
  The phases an acquisition goes through without an access of undefined behaviour, as
  predicates on the state: request submitted and unresolved, resolved.
\<close>

definition submitted :: "string \<Rightarrow> XdpPortal \<Rightarrow> GCancellable option \<Rightarrow> nat \<Rightarrow> world \<Rightarrow> bool" where
  "submitted pfx po cn r w =
     (\<not> crashed w
      \<and> (\<exists>c. call w = Some c \<and> signal_id c = 1 \<and> cancelled_id c = hook_id cn
              \<and> request_path c = Some (path_of pfx po r))
      \<and> signals w = [(1, path_of pfx po r)] \<and> handlers w = hook_list cn
      \<and> \<not> export_pending w
      \<and> length (requests (trace w)) = 1 \<and> resolutions (trace w) = [])"

definition resolved :: "world \<Rightarrow> bool" where
  "resolved w =
     (\<not> crashed w \<and> call w = None \<and> signals w = [] \<and> handlers w = []
      \<and> \<not> export_pending w
      \<and> length (requests (trace w)) = 1 \<and> length (resolutions (trace w)) = 1)"

definition phase_inv :: "string \<Rightarrow> XdpPortal \<Rightarrow> GCancellable option \<Rightarrow> nat \<Rightarrow> world \<Rightarrow> bool" where
  "phase_inv pfx po cn r w =
     (crashed w \<or> submitted pfx po cn r w \<or> resolved w)"



text \<open>
  A monitor for the order of subscription and request: it reads a trace from the left,
  keeps the live Response subscriptions, and at every AcquireDevices request checks
  that the object path made of \<open>base\<close> and the request's handle token is among them.
\<close>

definition monitor_step ::
  "string \<Rightarrow> bool \<times> (nat \<times> string) list \<Rightarrow> action \<Rightarrow> bool \<times> (nat \<times> string) list" where
  "monitor_step base s a =
     (case a of
        SignalSubscribe i p \<Rightarrow> (fst s, snd s @ [(i, p)])
      | SignalUnsubscribe i \<Rightarrow> (fst s, filter (\<lambda>x. fst x \<noteq> i) (snd s))
      | CallAcquireDevices h d opts \<Rightarrow>
          (fst s \<and> (case g_variant_lookup_s opts ''handle_token'' of
                      None \<Rightarrow> False
                    | Some t \<Rightarrow> base @ t \<in> snd ` set (snd s)),
           snd s)
      | _ \<Rightarrow> s)"

definition subscribed_before_request :: "string \<Rightarrow> action list \<Rightarrow> bool" where
  "subscribed_before_request base tr = fst (foldl (monitor_step base) (True, []) tr)"

text \<open>
  What a run leaves untouched: the cells of the store the caller started with; and the
  context keeps the copy of the array it made.
\<close>

definition mem_frame :: "memory \<Rightarrow> world \<Rightarrow> bool" where
  "mem_frame m w = (\<forall>a<brk m. cells (mem w) a = cells m a)"

definition owns_copy :: "addr \<Rightarrow> memory \<Rightarrow> world \<Rightarrow> bool" where
  "owns_copy devs m w =
     (\<forall>c. call w = Some c \<longrightarrow>
          (\<exists>array. devices c = Some array \<and> g_ptr_array_copy devs m = Some (array, mem w)))"

text \<open>An example store: one writable request for \<open>usb:001\<close> in an array at address 2.\<close>

definition example_memory :: memory where
  "example_memory =
     \<lparr>cells = [0 \<mapsto> Str ''usb:001'', 1 \<mapsto> Req (Some 0) True, 2 \<mapsto> PtrArray [1] True],
      brk = 3\<rparr>"

definition example_start :: "XdpParent option \<Rightarrow> GCancellable option \<Rightarrow> world" where
  "example_start par cn =
     xdp_portal_usb_acquire_devices ''/request/'' (Some \<lparr>sender = ''1_42''\<rparr>) par 2 cn
       (world0 example_memory 7)"


section \<open>USB sessions (usbsession.c)\<close>

text \<open>
  \<open>struct _XdpUsbSession\<close> (usbsession-private.h): the strong reference to the parent
  Session and the id of the DeviceEvents subscription. The field \<open>signal_id\<close> of the
  source is \<open>session_signal_id\<close> here; \<open>usb_refs\<close> is the reference count the object
  has as a \<open>GObject\<close>.
\<close>

record XdpUsbSession =
  parent_session :: "addr option"
  session_signal_id :: nat
  usb_refs :: nat

text \<open>
  Modelled from the spec: \<open>XdpSession\<close> (session-private.h) and the functions
  \<open>_xdp_session_new\<close> and \<open>xdp_session_close\<close> (session.c) are not among the
  sources. From sections 3 and 4.3 of the specification: a Session is identified by an
  object path, has at most one USB Session, reached through a non-owning
  back-reference, and moves from Active to Closed when it is closed; the
  specification names no bus call for closing a Session. The model keeps the fields
  usbsession.c reads and writes (\<open>portal\<close>, \<open>usb_session\<close>), the reference count
  and the weak-reference notifications of the \<open>GObject\<close>, and the Closed mark.
\<close>

record XdpSession =
  session_portal :: XdpPortal
  session_path :: string
  usb_session :: "addr option"
  session_refs :: nat
  weak_refs :: "addr list"
  closed :: bool

datatype session_action =
    Subscribed nat
  | Unsubscribed nat
  | Critical string

text \<open>
  The objects, the live DeviceEvents subscriptions on the bus, the next subscription id
  (never 0), the next unused object address, and the log of bus actions and diagnostics.
\<close>

record session_world =
  sessions :: "addr \<rightharpoonup> XdpSession"
  usb_sessions :: "addr \<rightharpoonup> XdpUsbSession"
  device_events :: "nat list"
  next_sub :: nat
  next_obj :: addr
  slog :: "session_action list"

definition update_session ::
  "addr \<Rightarrow> (XdpSession \<Rightarrow> XdpSession) \<Rightarrow> session_world \<Rightarrow> session_world" where
  "update_session p f w =
     (case sessions w p of
        None \<Rightarrow> w
      | Some s \<Rightarrow> w\<lparr>sessions := (sessions w)(p \<mapsto> f s)\<rparr>)"

definition update_usb_session ::
  "addr \<Rightarrow> (XdpUsbSession \<Rightarrow> XdpUsbSession) \<Rightarrow> session_world \<Rightarrow> session_world" where
  "update_usb_session u f w =
     (case usb_sessions w u of
        None \<Rightarrow> w
      | Some s \<Rightarrow> w\<lparr>usb_sessions := (usb_sessions w)(u \<mapsto> f s)\<rparr>)"

text \<open>
  Modelled from the spec: \<open>_xdp_session_new\<close> (session.c) builds the generic Session
  for a session path: one reference, no USB Session attached, not closed.
\<close>

definition xdp_session_new :: "XdpPortal \<Rightarrow> string \<Rightarrow> session_world \<Rightarrow> addr \<times> session_world" where
  "xdp_session_new po path w =
     (next_obj w,
      w\<lparr>sessions := (sessions w)(next_obj w \<mapsto>
            \<lparr>session_portal = po, session_path = path, usb_session = None,
             session_refs = 1, weak_refs = [], closed = False\<rparr>),
        next_obj := Suc (next_obj w)\<rparr>)"

text \<open>
  Modelled from the spec: \<open>xdp_session_close\<close> (session.c) moves the Session to
  Closed; a \<open>NULL\<close> session is rejected.
\<close>

definition xdp_session_close :: "addr option \<Rightarrow> session_world \<Rightarrow> session_world" where
  "xdp_session_close ses w =
     (case ses of
        None \<Rightarrow> w
      | Some p \<Rightarrow> update_session p (\<lambda>s. s\<lparr>closed := True\<rparr>) w)"

text \<open>\<open>parent_session_destroy\<close>: the weak-reference notification.\<close>

definition parent_session_destroy :: "addr \<Rightarrow> session_world \<Rightarrow> session_world" where
  "parent_session_destroy d w =
     update_usb_session d (\<lambda>s. s\<lparr>parent_session := None\<rparr>)
       (w\<lparr>slog := slog w @ [Critical
          ''XdpSession destroyed before XdpUsbSesssion, you lost count of your session refs'']\<rparr>)"

text \<open>
  References to a Session: \<open>g_object_ref\<close> adds one; \<open>g_object_unref\<close> drops one, and
  with the last one notifies the weak references and releases the object.
\<close>

definition session_ref :: "addr \<Rightarrow> session_world \<Rightarrow> session_world" where
  "session_ref p w = update_session p (\<lambda>s. s\<lparr>session_refs := Suc (session_refs s)\<rparr>) w"

definition session_unref :: "addr \<Rightarrow> session_world \<Rightarrow> session_world" where
  "session_unref p w =
     (case sessions w p of
        None \<Rightarrow> w
      | Some s \<Rightarrow>
          if 1 < session_refs s
          then w\<lparr>sessions := (sessions w)(p \<mapsto> s\<lparr>session_refs := session_refs s - 1\<rparr>)\<rparr>
          else (let w1 = fold parent_session_destroy (weak_refs s) w
                in w1\<lparr>sessions := (sessions w1)(p := None)\<rparr>))"

definition device_events_subscribe :: "session_world \<Rightarrow> nat \<times> session_world" where
  "device_events_subscribe w =
     (next_sub w,
      w\<lparr>device_events := device_events w @ [next_sub w], next_sub := Suc (next_sub w),
        slog := slog w @ [Subscribed (next_sub w)]\<rparr>)"

definition device_events_unsubscribe :: "nat \<Rightarrow> session_world \<Rightarrow> session_world" where
  "device_events_unsubscribe i w =
     w\<lparr>device_events := removeAll i (device_events w), slog := slog w @ [Unsubscribed i]\<rparr>"

text \<open>
  \<open>_xdp_usb_session_new\<close>: the Session, the USB Session (\<open>xdp_usb_session_init\<close> clears
  both fields), the back-reference, the weak reference, the strong reference, the
  subscription; the local reference to the Session is dropped on return.
\<close>

definition xdp_usb_session_new :: "XdpPortal \<Rightarrow> string \<Rightarrow> session_world \<Rightarrow> addr \<times> session_world" where
  "xdp_usb_session_new po path w =
     (let (p, w1) = xdp_session_new po path w;
          u = next_obj w1;
          w2 = w1\<lparr>usb_sessions := (usb_sessions w1)(u \<mapsto>
                    \<lparr>parent_session = None, session_signal_id = 0, usb_refs = 1\<rparr>),
                  next_obj := Suc u\<rparr>;
          w3 = update_session p (\<lambda>s. s\<lparr>usb_session := Some u\<rparr>) w2;
          w4 = update_session p (\<lambda>s. s\<lparr>weak_refs := u # weak_refs s\<rparr>) w3;
          w5 = update_usb_session u (\<lambda>s. s\<lparr>parent_session := Some p\<rparr>) (session_ref p w4);
          (i, w6) = device_events_subscribe w5;
          w7 = update_usb_session u (\<lambda>s. s\<lparr>session_signal_id := i\<rparr>) w6
      in (u, session_unref p w7))"

text \<open>
  \<open>xdp_usb_session_finalize\<close>, followed by the release of the object itself (the
  \<open>finalize\<close> of the parent class).
\<close>

definition xdp_usb_session_finalize :: "addr \<Rightarrow> session_world \<Rightarrow> session_world" where
  "xdp_usb_session_finalize u w =
     (case usb_sessions w u of
        None \<Rightarrow> w
      | Some s \<Rightarrow>
          (let w' =
             (case parent_session s of
                None \<Rightarrow>
                  w\<lparr>slog := slog w @ [Critical
                    ''XdpSession destroyed before XdpInputCaptureSesssion, you lost count of your session refs'']\<rparr>
              | Some p \<Rightarrow>
                  (let w1 = (if session_signal_id s \<noteq> 0
                             then device_events_unsubscribe (session_signal_id s) w else w);
                       w2 = update_session p (\<lambda>x. x\<lparr>weak_refs := remove1 u (weak_refs x)\<rparr>) w1;
                       w3 = update_session p (\<lambda>x. x\<lparr>usb_session := None\<rparr>) w2;
                       w4 = update_usb_session u (\<lambda>x. x\<lparr>parent_session := None\<rparr>) w3
                   in session_unref p w4))
           in w'\<lparr>usb_sessions := (usb_sessions w')(u := None)\<rparr>))"

text \<open>Dropping a reference to a USB Session; the last one finalizes it.\<close>

definition usb_session_unref :: "addr \<Rightarrow> session_world \<Rightarrow> session_world" where
  "usb_session_unref u w =
     (case usb_sessions w u of
        None \<Rightarrow> w
      | Some s \<Rightarrow>
          if 1 < usb_refs s
          then w\<lparr>usb_sessions := (usb_sessions w)(u \<mapsto> s\<lparr>usb_refs := usb_refs s - 1\<rparr>)\<rparr>
          else xdp_usb_session_finalize u w)"

definition xdp_usb_session_close :: "addr \<Rightarrow> session_world \<Rightarrow> session_world" where
  "xdp_usb_session_close u w =
     (case usb_sessions w u of
        None \<Rightarrow> w
      | Some s \<Rightarrow> xdp_session_close (parent_session s) w)"

definition xdp_usb_session_get_session :: "addr \<Rightarrow> session_world \<Rightarrow> addr option" where
  "xdp_usb_session_get_session u w =
     (case usb_sessions w u of None \<Rightarrow> None | Some s \<Rightarrow> parent_session s)"

text \<open>
  The caller keeps \<open>n\<close> references of its own to the Session of a USB Session.
\<close>

definition caller_keeps_session :: "nat \<Rightarrow> addr \<Rightarrow> session_world \<Rightarrow> session_world" where
  "caller_keeps_session n u w =
     (case xdp_usb_session_get_session u w of
        None \<Rightarrow> w
      | Some p \<Rightarrow> (session_ref p ^^ n) w)"

text \<open>A state before the USB Session is created: the addresses and the id it will get are unused.\<close>

definition fresh_world :: "session_world \<Rightarrow> bool" where
  "fresh_world w =
     (sessions w (next_obj w) = None \<and> usb_sessions w (Suc (next_obj w)) = None
      \<and> next_sub w \<noteq> 0 \<and> next_sub w \<notin> set (device_events w)
      \<and> Unsubscribed (next_sub w) \<notin> set (slog w))"

definition empty_session_world :: session_world where
  "empty_session_world =
     \<lparr>sessions = Map.empty, usb_sessions = Map.empty, device_events = [], next_sub = 1,
      next_obj = 0, slog = []\<rparr>"

text \<open>
  The state right after \<open>_xdp_usb_session_new\<close>, with \<open>n\<close> further references to
  the Session and its Closed mark \<open>cl\<close>.
\<close>

definition created :: "XdpPortal \<Rightarrow> string \<Rightarrow> nat \<Rightarrow> bool \<Rightarrow> session_world \<Rightarrow> session_world" where
  "created po path n cl w0 =
     w0\<lparr>sessions := (sessions w0)(next_obj w0 \<mapsto>
            \<lparr>session_portal = po, session_path = path, usb_session = Some (Suc (next_obj w0)),
             session_refs = Suc n, weak_refs = [Suc (next_obj w0)], closed = cl\<rparr>),
        usb_sessions := (usb_sessions w0)(Suc (next_obj w0) \<mapsto>
            \<lparr>parent_session = Some (next_obj w0), session_signal_id = next_sub w0, usb_refs = 1\<rparr>),
        device_events := device_events w0 @ [next_sub w0],
        next_sub := Suc (next_sub w0),
        next_obj := Suc (Suc (next_obj w0)),
        slog := slog w0 @ [Subscribed (next_sub w0)]\<rparr>"

text \<open>
  An example: a USB Session created in the empty state, of whose Session the caller
  keeps one reference of its own. The Session is object 0, the USB Session object 1.
\<close>

definition example_kept_session :: session_world where
  "example_kept_session =
     caller_keeps_session 1 1
       (snd (xdp_usb_session_new \<lparr>sender = ''1_42''\<rparr> ''/session/1'' empty_session_world))"

text \<open>A broker that answers the first round trip with an unfinished page and the second
  with a finished one.\<close>

definition two_page_broker :: "nat \<Rightarrow> page_reply" where
  "two_page_broker n =
     (if n = 0
      then PageReply [(''usb:001'', [(''success'', VBool True), (''fd'', VHandle 7)])] False
      else PageReply [(''usb:002'', [(''success'', VBool False), (''error'', VString ''denied'')])] True)"

section \<open>Properties of the finishing query\<close>

lemma append_variant_to_fd_list_Some:
  "append_variant_to_fd_list fd_list (Some es) = fd_list @ map device_of_entry es"
  by (induction es arbitrary: fd_list) simp_all

lemma finish_acquire_loop_pages:
  assumes "\<forall>j. n \<le> j \<and> j < n + k \<longrightarrow> (\<exists>es. broker j = PageReply es False)"
    and "\<exists>es. broker (n + k) = PageReply es True"
  shows "finish_acquire_loop broker n False fd_list err =
           Some (fd_list @ map device_of_entry (concat (map (\<lambda>j. page_entries (broker j)) [n..<Suc (n + k)])),
                 err, Suc (n + k))"
  using assms
proof (induction k arbitrary: n fd_list)
  case 0
  then obtain es where es: "broker n = PageReply es True" by auto
  have "[n..<Suc n] = [n]" by simp
  then show ?case
    by (subst finish_acquire_loop.simps, subst finish_acquire_loop.simps)
      (simp add: es append_variant_to_fd_list_Some)
next
  case (Suc k)
  from Suc.prems(1) obtain es where es: "broker n = PageReply es False" by force
  have step: "finish_acquire_loop broker n False fd_list err =
      finish_acquire_loop broker (Suc n) False (fd_list @ map device_of_entry es) err"
    by (subst finish_acquire_loop.simps) (simp add: es append_variant_to_fd_list_Some)
  have a1: "\<forall>j. Suc n \<le> j \<and> j < Suc n + k \<longrightarrow> (\<exists>es. broker j = PageReply es False)"
    using Suc.prems(1) by auto
  have a2: "\<exists>es. broker (Suc n + k) = PageReply es True"
    using Suc.prems(2) by simp
  have up: "[n..<Suc (n + Suc k)] = n # [Suc n..<Suc (Suc n + k)]"
    by (simp add: upt_conv_Cons)
  have "finish_acquire_loop broker (Suc n) False (fd_list @ map device_of_entry es) err =
      Some ((fd_list @ map device_of_entry es)
              @ map device_of_entry
                  (concat (map (\<lambda>j. page_entries (broker j)) [Suc n..<Suc (Suc n + k)])),
            err, Suc (Suc n + k))"
    by (rule Suc.IH [OF a1 a2])
  then show ?case
    unfolding step up by (simp add: es)
qed

text \<open>
  Claim C3 (exactly one record per requested identifier) does not hold of the code.
  The list the loop appends to is read before anything has been assigned to it: line
  627 declares \<open>fd_list\<close> without an initialiser (the list of the Response handler,
  line 351, starts as \<open>NULL\<close>). Take two identifiers, answered by an unfinished page
  for the first and a finished page for the second. The query makes its two round
  trips and returns whatever the list held at the start, followed by the two records:
  with one stale element in it, three records for two identifiers.
\<close>

theorem finish_acquire_devices_starts_from_stale_list:
  "xdp_portal_usb_finish_acquire_devices (Some po) fd_list0 two_page_broker
     = Some (fd_list0
               @ [\<lparr>usb_id = ''usb:001'', success = True, fd = 7, error = None\<rparr>,
                  \<lparr>usb_id = ''usb:002'', success = False, fd = - 1, error = Some ''denied''\<rparr>],
             None, 2)
   \<and> xdp_portal_usb_finish_acquire_devices (Some \<lparr>sender = ''1_42''\<rparr>)
         [\<lparr>usb_id = ''usb:009'', success = True, fd = 3, error = None\<rparr>] two_page_broker
     = Some ([\<lparr>usb_id = ''usb:009'', success = True, fd = 3, error = None\<rparr>,
              \<lparr>usb_id = ''usb:001'', success = True, fd = 7, error = None\<rparr>,
              \<lparr>usb_id = ''usb:002'', success = False, fd = - 1, error = Some ''denied''\<rparr>],
             None, 2)"
proof -
  have "xdp_portal_usb_finish_acquire_devices (Some q) l two_page_broker
     = Some (l @ [\<lparr>usb_id = ''usb:001'', success = True, fd = 7, error = None\<rparr>,
                  \<lparr>usb_id = ''usb:002'', success = False, fd = - 1, error = Some ''denied''\<rparr>],
             None, 2)" for q l
    unfolding xdp_portal_usb_finish_acquire_devices_def
    using finish_acquire_loop_pages [of 0 1 two_page_broker l None]
    by (simp add: two_page_broker_def device_of_entry_def g_variant_lookup_b_def
          g_variant_lookup_h_def g_variant_lookup_s_def xdp_usb_device_new_def
          xdp_usb_device_error_new_def)
  from this [of po fd_list0]
    this [of "\<lparr>sender = ''1_42''\<rparr>" "[\<lparr>usb_id = ''usb:009'', success = True, fd = 3, error = None\<rparr>]"]
  show ?thesis by simp
qed

text \<open>
  A loop that returns was not facing a broker whose every round trip fails: with such a
  broker the unfinished loop only calls itself again.
\<close>

lemma finish_acquire_loop_all_failed:
  assumes "finish_acquire_loop b n f l err = Some r"
  shows "\<not> (b = (\<lambda>n. CallFailed e) \<and> \<not> f)"
proof (rule finish_acquire_loop.raw_induct
        [where P = "\<lambda>b n f l err r. \<not> (b = (\<lambda>n. CallFailed e) \<and> \<not> f)", OF _ assms])
  fix loop :: "(nat \<Rightarrow> page_reply) \<Rightarrow> nat \<Rightarrow> bool \<Rightarrow> XdpUsbDevice list \<Rightarrow> gerror option
     \<Rightarrow> (XdpUsbDevice list \<times> gerror option \<times> nat) option"
  fix broker n finished fd_list err r
  assume IH: "\<And>b n f l err y. loop b n f l err = Some y
                \<Longrightarrow> \<not> (b = (\<lambda>n. CallFailed e) \<and> \<not> f)"
    and body: "(if finished then Some (fd_list, err, n)
      else (case broker n of
              CallFailed e \<Rightarrow> loop broker (Suc n) finished fd_list (g_set_error err e)
            | PageReply fd_list_variant finished_variant \<Rightarrow>
                loop broker (Suc n) (finished \<or> finished_variant)
                  (append_variant_to_fd_list fd_list (Some fd_list_variant)) err)) = Some r"
  show "\<not> (broker = (\<lambda>n. CallFailed e) \<and> \<not> finished)"
  proof
    assume a: "broker = (\<lambda>n. CallFailed e) \<and> \<not> finished"
    with body have "loop broker (Suc n) finished fd_list (g_set_error err e) = Some r"
      by simp
    from IH [OF this] a show False by simp
  qed
qed

lemma finish_acquire_loop_never_returns:
  "finish_acquire_loop (\<lambda>n. CallFailed e) n False l err = None"
  using finish_acquire_loop_all_failed [of "\<lambda>n. CallFailed e" n False l err _ e]
  by (cases "finish_acquire_loop (\<lambda>n. CallFailed e) n False l err") auto

lemma finish_acquire_loop_retries:
  "finish_acquire_loop
       (\<lambda>n. if n = 0 then CallFailed (GError (G_IO_ERROR_OTHER 0) ''broker unavailable'')
            else PageReply [(''usb:001'', [(''success'', VBool True), (''fd'', VHandle 7)])] True)
       0 False [] None
     = Some ([\<lparr>usb_id = ''usb:001'', success = True, fd = 7, error = None\<rparr>],
             Some (GError (G_IO_ERROR_OTHER 0) ''broker unavailable''), 2)"
  apply (subst finish_acquire_loop.simps, simp)
  apply (subst finish_acquire_loop.simps, simp)
  apply (subst finish_acquire_loop.simps)
  apply (simp add: g_set_error_def device_of_entry_def g_variant_lookup_b_def
      g_variant_lookup_h_def g_variant_lookup_s_def xdp_usb_device_new_def)
  done

text \<open>
  Claim C2 (the loop aborts with an error when a page's call fails) does not hold of
  the code. The loop body has no branch for a failed round trip: \<open>finished\<close> stays
  false and the next iteration issues the call again. When the first round trip fails
  and the second yields a finished page, the query returns that page's records after
  two round trips, as a normal result. When every round trip fails, the query never
  returns.
\<close>

theorem finish_acquire_devices_retries_failed_page:
  "xdp_portal_usb_finish_acquire_devices (Some \<lparr>sender = ''1_42''\<rparr>) []
       (\<lambda>n. if n = 0 then CallFailed (GError (G_IO_ERROR_OTHER 0) ''broker unavailable'')
            else PageReply [(''usb:001'', [(''success'', VBool True), (''fd'', VHandle 7)])] True)
     = Some ([\<lparr>usb_id = ''usb:001'', success = True, fd = 7, error = None\<rparr>],
             Some (GError (G_IO_ERROR_OTHER 0) ''broker unavailable''), 2)
   \<and> xdp_portal_usb_finish_acquire_devices (Some \<lparr>sender = ''1_42''\<rparr>) []
       (\<lambda>n. CallFailed (GError (G_IO_ERROR_OTHER 0) ''broker unavailable'')) = None"
  unfolding xdp_portal_usb_finish_acquire_devices_def
  using finish_acquire_loop_retries finish_acquire_loop_never_returns by simp

section \<open>Copies of the request array are independent of the original\<close>

lemma foreach_acc:
  "foreach_add_to_variant ps m acc = map_option ((@) acc) (foreach_add_to_variant ps m [])"
proof (induction ps arbitrary: acc)
  case Nil
  show ?case by simp
next
  case (Cons p ps)
  show ?case
  proof (cases "add_to_variant p m []")
    case None
    then have "add_to_variant p m acc = None"
      by (auto simp: add_to_variant_def split: option.splits obj.splits)
    with None show ?thesis by simp
  next
    case (Some b)
    then have "add_to_variant p m acc = Some (acc @ b)"
      by (auto simp: add_to_variant_def split: option.splits obj.splits)
    with Some show ?thesis
      by (simp add: Cons.IH [of "acc @ b"] Cons.IH [of b] option.map_comp comp_def)
  qed
qed

lemma foreach_Cons_Some:
  assumes "foreach_add_to_variant (p # ps) m [] = Some pl"
  obtains s w i pl' where "cells m p = Some (Req (Some s) w)" "cells m s = Some (Str i)"
    "foreach_add_to_variant ps m [] = Some pl'" "pl = (i, [(''writable'', VBool w)]) # pl'"
proof -
  from assms obtain b where b: "add_to_variant p m [] = Some b"
    and rest: "foreach_add_to_variant ps m b = Some pl"
    by (auto split: option.splits)
  from b obtain s w i where c: "cells m p = Some (Req (Some s) w)" "cells m s = Some (Str i)"
    and bv: "b = [(i, [(''writable'', VBool w)])]"
    by (auto simp: add_to_variant_def split: option.splits obj.splits)
  from rest obtain pl' where r: "foreach_add_to_variant ps m [] = Some pl'" and "pl = b @ pl'"
    by (subst (asm) foreach_acc) auto
  with bv have "pl = (i, [(''writable'', VBool w)]) # pl'" by simp
  with c r show thesis by (rule that)
qed

lemma heap_okD: "heap_ok m \<Longrightarrow> cells m a = Some x \<Longrightarrow> a < brk m"
  unfolding heap_ok_def by (metis not_le option.distinct(1))

lemma copy_request:
  assumes "cells m p = Some (Req (Some s) w)" "cells m s = Some (Str i)" "s < brk m"
  shows "usb_device_acquire_request_copy p m =
           Some (brk m, \<lparr>cells = (cells m)(brk m \<mapsto> Req (Some (Suc (brk m))) w,
                                         Suc (brk m) \<mapsto> Str i),
                         brk = Suc (Suc (brk m))\<rparr>)"
  using assms
  by (auto simp: usb_device_acquire_request_copy_def xdp_usb_device_acquire_request_copy_def
      xdp_usb_device_acquire_request_new_def g_malloc_def g_strdup_def Let_def fun_upd_twist)

lemma copy_elements_ok:
  assumes "foreach_add_to_variant ps m0 [] = Some pl"
    and "heap_ok m0" and "\<forall>a<brk m0. cells m a = cells m0 a" and "brk m0 \<le> brk m"
    and "heap_ok m"
  shows "\<exists>qs m'. copy_elements ps m = Some (qs, m') \<and> brk m \<le> brk m' \<and> heap_ok m'
           \<and> (\<forall>a<brk m. cells m' a = cells m a)
           \<and> (\<forall>q\<in>set qs. brk m \<le> q
                  \<and> (\<exists>s w. cells m' q = Some (Req (Some s) w) \<and> brk m \<le> s))
           \<and> (\<forall>m''. (\<forall>a. brk m \<le> a \<and> a < brk m' \<longrightarrow> cells m'' a = cells m' a)
                  \<longrightarrow> foreach_add_to_variant qs m'' [] = Some pl)"
  using assms
proof (induction ps arbitrary: m pl)
  case Nil
  then show ?case by auto
next
  case (Cons p ps)
  from Cons.prems(1) obtain s w i pl' where
    c0: "cells m0 p = Some (Req (Some s) w)" "cells m0 s = Some (Str i)"
    and rest: "foreach_add_to_variant ps m0 [] = Some pl'"
    and pl: "pl = (i, [(''writable'', VBool w)]) # pl'"
    by (rule foreach_Cons_Some)
  from c0 Cons.prems(2) have lt: "p < brk m0" "s < brk m0" by (auto dest: heap_okD)
  with c0 Cons.prems(3) have c: "cells m p = Some (Req (Some s) w)" "cells m s = Some (Str i)"
    by auto
  define m1 where "m1 = \<lparr>cells = (cells m)(brk m \<mapsto> Req (Some (Suc (brk m))) w,
                                         Suc (brk m) \<mapsto> Str i),
                         brk = Suc (Suc (brk m))\<rparr>"
  have cp: "usb_device_acquire_request_copy p m = Some (brk m, m1)"
    unfolding m1_def using lt(2) Cons.prems(4) by (intro copy_request [OF c]) simp
  have ok1: "heap_ok m1" using Cons.prems(5) by (auto simp: heap_ok_def m1_def)
  have ag1: "\<forall>a<brk m0. cells m1 a = cells m0 a"
    using Cons.prems(3,4) by (auto simp: m1_def)
  have le1: "brk m0 \<le> brk m1" using Cons.prems(4) by (simp add: m1_def)
  from Cons.IH [OF rest Cons.prems(2) ag1 le1 ok1]
  obtain qs m' where ih: "copy_elements ps m1 = Some (qs, m')" "brk m1 \<le> brk m'" "heap_ok m'"
    "\<forall>a<brk m1. cells m' a = cells m1 a"
    "\<forall>m''. (\<forall>a. brk m1 \<le> a \<and> a < brk m' \<longrightarrow> cells m'' a = cells m' a)
                  \<longrightarrow> foreach_add_to_variant qs m'' [] = Some pl'"
    "\<forall>q\<in>set qs. brk m1 \<le> q \<and> (\<exists>s w. cells m' q = Some (Req (Some s) w) \<and> brk m1 \<le> s)"
    by blast
  have res: "copy_elements (p # ps) m = Some (brk m # qs, m')"
    by (simp add: cp ih(1))
  have b: "brk m1 = Suc (Suc (brk m))" by (simp add: m1_def)
  have old: "\<forall>a<brk m. cells m' a = cells m a"
    using ih(4) by (auto simp: m1_def)
  have rd: "foreach_add_to_variant (brk m # qs) m'' [] = Some pl"
    if ag: "\<forall>a. brk m \<le> a \<and> a < brk m' \<longrightarrow> cells m'' a = cells m' a" for m''
  proof -
    have "cells m'' (brk m) = cells m1 (brk m)" "cells m'' (Suc (brk m)) = cells m1 (Suc (brk m))"
      using ag ih(2,4) b by auto
    then have "add_to_variant (brk m) m'' [] = Some [(i, [(''writable'', VBool w)])]"
      by (simp add: add_to_variant_def m1_def)
    moreover have "foreach_add_to_variant qs m'' [] = Some pl'"
      using ih(5) ag b by auto
    ultimately show ?thesis
      by (simp add: pl foreach_acc [of qs m'' "[(i, [(''writable'', VBool w)])]"])
  qed
  have hd: "cells m' (brk m) = Some (Req (Some (Suc (brk m))) w)"
    using ih(4) b by (simp add: m1_def)
  have st: "\<forall>q\<in>set (brk m # qs). brk m \<le> q
              \<and> (\<exists>s w. cells m' q = Some (Req (Some s) w) \<and> brk m \<le> s)"
  proof
    fix q assume q: "q \<in> set (brk m # qs)"
    show "brk m \<le> q \<and> (\<exists>s w. cells m' q = Some (Req (Some s) w) \<and> brk m \<le> s)"
    proof (cases "q = brk m")
      case True
      with hd show ?thesis by auto
    next
      case False
      with q have "q \<in> set qs" by simp
      with ih(6) obtain s w where "brk m1 \<le> q" "cells m' q = Some (Req (Some s) w)" "brk m1 \<le> s"
        by blast
      with b show ?thesis by auto
    qed
  qed
  from res ih(2,3) old rd b st show ?case by auto
qed


lemma foreach_Some_elems:
  "foreach_add_to_variant ps m [] = Some pl \<Longrightarrow> p \<in> set ps
     \<Longrightarrow> \<exists>s w i. cells m p = Some (Req (Some s) w) \<and> cells m s = Some (Str i)"
proof (induction ps arbitrary: pl)
  case Nil
  then show ?case by simp
next
  case (Cons q ps)
  from Cons.prems(1) obtain s w i pl' where
    c0: "cells m q = Some (Req (Some s) w)" "cells m s = Some (Str i)"
    and rest: "foreach_add_to_variant ps m [] = Some pl'"
    by (rule foreach_Cons_Some)
  show ?case
  proof (cases "p = q")
    case True
    with c0 show ?thesis by blast
  next
    case False
    with Cons.prems(2) have "p \<in> set ps" by simp
    from Cons.IH [OF rest this] show ?thesis .
  qed
qed

lemma free_element_cells:
  "cells (free_element p mm) a = cells mm a \<or> cells (free_element p mm) a = None"
  by (auto simp: free_element_def xdp_usb_device_acquire_request_free_def g_free_def
      split: option.splits obj.splits)

lemma free_element_frame:
  assumes "cells mm p = None \<or> (\<exists>s w. cells mm p = Some (Req (Some s) w) \<and> R s)" "R p" "\<not> R a"
  shows "cells (free_element p mm) a = cells mm a"
  using assms
  by (auto simp: free_element_def xdp_usb_device_acquire_request_free_def g_free_def
      split: option.splits obj.splits)

text \<open>
  Releasing elements that lie, with their strings, inside a region \<open>R\<close> leaves every
  cell outside \<open>R\<close> as it was.
\<close>

lemma fold_free_element_frame:
  assumes "\<forall>p\<in>set ps. R p \<and> (\<exists>s w. cells m0 p = Some (Req (Some s) w) \<and> R s)"
    and "\<forall>a. R a \<longrightarrow> cells mm a = cells m0 a \<or> cells mm a = None"
    and "\<not> R a"
  shows "cells (fold free_element ps mm) a = cells mm a"
  using assms
proof (induction ps arbitrary: mm)
  case Nil
  then show ?case by simp
next
  case (Cons p ps)
  have pb: "R p" and src: "\<exists>s w. cells m0 p = Some (Req (Some s) w) \<and> R s"
    using Cons.prems(1) by auto
  have cur: "cells mm p = None \<or> (\<exists>s w. cells mm p = Some (Req (Some s) w) \<and> R s)"
    using Cons.prems(2) pb src by metis
  have st: "\<forall>a. R a \<longrightarrow> cells (free_element p mm) a = cells m0 a \<or> cells (free_element p mm) a = None"
    using Cons.prems(2) free_element_cells [of p mm] by metis
  have "cells (fold free_element ps (free_element p mm)) a = cells (free_element p mm) a"
    using Cons.prems(1) st Cons.prems(3) by (intro Cons.IH) auto
  also have "\<dots> = cells mm a"
    by (rule free_element_frame [OF cur pb Cons.prems(3)])
  finally show ?case by simp
qed

lemma g_ptr_array_copy_ok:
  assumes "heap_ok m" "devices_variant devs m = Some pl"
  shows "\<exists>m'. g_ptr_array_copy devs m = Some (brk m, m') \<and> heap_ok m' \<and> brk m < brk m'
           \<and> (\<forall>a<brk m. cells m' a = cells m a)
           \<and> (\<forall>a<brk m. cells (g_ptr_array_free (brk m) m') a = cells m' a)
           \<and> (\<forall>m''. (\<forall>a. brk m \<le> a \<longrightarrow> cells m'' a = cells m' a)
                  \<longrightarrow> devices_variant (brk m) m'' = Some pl)"
proof -
  from assms(2) obtain ps ff where arr: "cells m devs = Some (PtrArray ps ff)"
    and rd: "foreach_add_to_variant ps m [] = Some pl"
    by (auto simp: devices_variant_def split: option.splits obj.splits)
  define m1 where "m1 = \<lparr>cells = (cells m)(brk m \<mapsto> PtrArray [] ff), brk = Suc (brk m)\<rparr>"
  have ok1: "heap_ok m1" using assms(1) by (auto simp: heap_ok_def m1_def)
  have ag1: "\<forall>a<brk m. cells m1 a = cells m a" by (simp add: m1_def)
  have le1: "brk m \<le> brk m1" by (simp add: m1_def)
  from copy_elements_ok [OF rd assms(1) ag1 le1 ok1]
  obtain qs m2 where ce: "copy_elements ps m1 = Some (qs, m2)" "brk m1 \<le> brk m2" "heap_ok m2"
    "\<forall>a<brk m1. cells m2 a = cells m1 a"
    "\<forall>m''. (\<forall>a. brk m1 \<le> a \<and> a < brk m2 \<longrightarrow> cells m'' a = cells m2 a)
                  \<longrightarrow> foreach_add_to_variant qs m'' [] = Some pl"
    "\<forall>q\<in>set qs. brk m1 \<le> q \<and> (\<exists>s w. cells m2 q = Some (Req (Some s) w) \<and> brk m1 \<le> s)"
    by blast
  define m' where "m' = m2\<lparr>cells := (cells m2)(brk m \<mapsto> PtrArray qs ff)\<rparr>"
  have b1: "brk m1 = Suc (brk m)" by (simp add: m1_def)
  have res: "g_ptr_array_copy devs m = Some (brk m, m')"
    by (simp add: g_ptr_array_copy_def arr g_malloc_def m1_def [symmetric] ce(1) m'_def)
  have ok': "heap_ok m'" using ce(2,3) b1 by (auto simp: heap_ok_def m'_def)
  have lt: "brk m < brk m'" using ce(2) b1 by (simp add: m'_def)
  have old: "\<forall>a<brk m. cells m' a = cells m a"
    using ce(4) b1 by (auto simp: m'_def m1_def)
  have rd': "devices_variant (brk m) m'' = Some pl"
    if ag: "\<forall>a. brk m \<le> a \<longrightarrow> cells m'' a = cells m' a" for m''
  proof -
    have "cells m'' (brk m) = Some (PtrArray qs ff)" using ag by (simp add: m'_def)
    moreover have "\<forall>a. brk m1 \<le> a \<and> a < brk m2 \<longrightarrow> cells m'' a = cells m2 a"
      using ag b1 by (auto simp: m'_def)
    then have "foreach_add_to_variant qs m'' [] = Some pl" using ce(5) by blast
    ultimately show ?thesis by (simp add: devices_variant_def)
  qed
  have el: "\<forall>q\<in>set qs. brk m \<le> q \<and> (\<exists>s w. cells m' q = Some (Req (Some s) w) \<and> brk m \<le> s)"
    using ce(6) b1 by (auto simp: m'_def)
  have fr: "cells (g_ptr_array_free (brk m) m') a = cells m' a" if a: "a < brk m" for a
  proof -
    have na: "\<not> brk m \<le> a" using a by simp
    have "cells (fold free_element qs m') a = cells m' a"
      by (rule fold_free_element_frame [where R = "\<lambda>a. brk m \<le> a" and ?m0.0 = m', OF el _ na])
        simp
    with a show ?thesis
      by (auto simp: g_ptr_array_free_def m'_def g_free_def)
  qed
  from res ok' lt old rd' fr show ?thesis by blast
qed

lemma g_ptr_array_free_frame:
  assumes "heap_ok m0" "devices_variant devs m0 = Some pl" "\<forall>a<brk m0. cells m' a = cells m0 a"
    and "brk m0 \<le> a"
  shows "cells (g_ptr_array_free devs m') a = cells m' a"
proof -
  from assms(2) obtain ps ff where arr: "cells m0 devs = Some (PtrArray ps ff)"
    and rd: "foreach_add_to_variant ps m0 [] = Some pl"
    by (auto simp: devices_variant_def split: option.splits obj.splits)
  have dl: "devs < brk m0" using arr assms(1) by (rule heap_okD [rotated])
  then have arr': "cells m' devs = Some (PtrArray ps ff)" using arr assms(3) by simp
  have el: "\<forall>p\<in>set ps. p < brk m0 \<and> (\<exists>s w. cells m0 p = Some (Req (Some s) w) \<and> s < brk m0)"
  proof
    fix p assume "p \<in> set ps"
    from foreach_Some_elems [OF rd this] obtain s w i where
      "cells m0 p = Some (Req (Some s) w)" "cells m0 s = Some (Str i)" by blast
    with assms(1) show "p < brk m0 \<and> (\<exists>s w. cells m0 p = Some (Req (Some s) w) \<and> s < brk m0)"
      by (auto dest: heap_okD)
  qed
  have st: "\<forall>a. a < brk m0 \<longrightarrow> cells m' a = cells m0 a \<or> cells m' a = None"
    using assms(3) by simp
  have na: "\<not> a < brk m0" using assms(4) by simp
  have "cells (fold free_element ps m') a = cells m' a"
    by (rule fold_free_element_frame [where R = "\<lambda>a. a < brk m0", OF el st na])
  with dl assms(4) show ?thesis
    by (auto simp: g_ptr_array_free_def arr' g_free_def)
qed

lemma example_memory_ok:
  "heap_ok example_memory
   \<and> devices_variant 2 example_memory = Some [(''usb:001'', [(''writable'', VBool True)])]"
  by (simp add: heap_ok_def example_memory_def devices_variant_def add_to_variant_def)

section \<open>Properties of the acquisition workflow\<close>

lemmas prim_defs = emit_def fault_def g_dbus_connection_signal_subscribe_def
  g_dbus_connection_signal_unsubscribe_def g_signal_connect_def g_signal_handler_disconnect_def
  g_task_return_pointer_def g_task_return_session_def g_task_return_error_def
  g_task_return_new_error_def usb_call_free_def detach_cancelled_def g_task_get_cancellable_def

lemmas obs_defs = is_resolution_def is_request_def resolutions_def requests_def
  hook_id_def hook_list_def

lemma run_Nil: "run pfx [] w = w"
  by (simp add: run_def)

lemma run_snoc: "run pfx (evs @ [ev]) w = deliver pfx ev (run pfx evs w)"
  by (simp add: run_def)

lemma crashed_deliver: "crashed w \<Longrightarrow> deliver pfx ev w = w"
  by (simp add: deliver_def)

lemma crashed_run: "crashed w \<Longrightarrow> run pfx evs w = w"
  by (induction evs rule: rev_induct) (simp_all add: run_Nil run_snoc crashed_deliver)

lemma start_with_parent:
  assumes "g_ptr_array_copy devs m = Some (cp, m')"
  shows "xdp_portal_usb_acquire_devices pfx (Some po) (Some p) devs cn (world0 m r) =
     \<lparr>call = Some \<lparr>portal = po, task = \<lparr>task_cancellable = cn\<rparr>, signal_id = 0,
                    request_path = None, cancelled_id = 0, session = None, parent = Some p,
                    parent_handle = None, devices = Some cp\<rparr>,
      mem = m', signals = [], handlers = [], reply_pending = False, reply_cancelled = False,
      export_pending = True, next_id = 1, random = r, crashed = True,
      trace = [ParentExport p, InvalidAccess]\<rparr>"
  using assms
  by (simp add: xdp_portal_usb_acquire_devices_def world0_def acquire_devices_def emit_def
      fault_def)

lemma submit:
  assumes "call w = Some c" "parent_handle c = Some h" "devices c = Some array"
    and "devices_variant array (mem w) = Some pl"
  shows "acquire_devices pfx w =
     w\<lparr>call := Some (c\<lparr>request_path := Some (pfx @ sender (portal c) @ ''/'' @ portal_token (random w)),
                       signal_id := next_id w,
                       cancelled_id := (case task_cancellable (task c) of None \<Rightarrow> cancelled_id c
                                        | Some x \<Rightarrow> Suc (next_id w))\<rparr>),
       signals := signals w @ [(next_id w, pfx @ sender (portal c) @ ''/'' @ portal_token (random w))],
       handlers := (case task_cancellable (task c) of None \<Rightarrow> handlers w
                    | Some x \<Rightarrow> handlers w @ [Suc (next_id w)]),
       next_id := (case task_cancellable (task c) of None \<Rightarrow> Suc (next_id w)
                   | Some x \<Rightarrow> Suc (Suc (next_id w))),
       reply_pending := True,
       trace := trace w
          @ [SignalSubscribe (next_id w) (pfx @ sender (portal c) @ ''/'' @ portal_token (random w))]
          @ (case task_cancellable (task c) of None \<Rightarrow> [] | Some x \<Rightarrow> [HandlerConnect (Suc (next_id w))])
          @ [CallAcquireDevices h pl [(''handle_token'', VString (portal_token (random w)))]]\<rparr>"
  using assms
  by (cases "task_cancellable (task c)")
     (simp_all add: acquire_devices_def prim_defs Let_def)

subsection \<open>Phases\<close>

lemma submitted_response:
  assumes "submitted pfx po cn r w"
  shows "crashed (deliver pfx (Response (path_of pfx po r) st ds) w)
         \<or> resolved (deliver pfx (Response (path_of pfx po r) st ds) w)"
  using assms
  by (cases cn)
     (auto simp: deliver_def submitted_def resolved_def acquire_response_received_def
        prim_defs obs_defs Let_def split: option.splits)

lemma submitted_response_other:
  assumes "submitted pfx po cn r w" "path \<noteq> path_of pfx po r"
  shows "deliver pfx (Response path st ds) w = w"
  using assms by (auto simp: deliver_def submitted_def)

lemma submitted_cancelled_None:
  assumes "submitted pfx po None r w"
  shows "deliver pfx Cancelled w = w"
  using assms by (auto simp: deliver_def submitted_def hook_list_def)

lemma submitted_cancelled_Some:
  assumes "submitted pfx po (Some x) r w"
  shows "resolved (deliver pfx Cancelled w)
         \<and> trace (deliver pfx Cancelled w) = trace w @
             [CallClose (Some (path_of pfx po r)),
              TaskReturnError (GError G_IO_ERROR_CANCELLED
                                 ''Acquire USB devices call canceled by caller''),
              SignalUnsubscribe 1, HandlerDisconnect 2, CallFree]"
  using assms
  by (auto simp: deliver_def submitted_def resolved_def acquire_cancelled_cb_def
        prim_defs obs_defs Let_def)

lemma submitted_returned:
  assumes "submitted pfx po cn r w"
  shows "submitted pfx po cn r (deliver pfx (Returned err) w)
         \<or> resolved (deliver pfx (Returned err) w)"
  using assms
  by (cases cn; cases err)
     (auto simp: deliver_def submitted_def resolved_def usb_call_returned_def
        prim_defs obs_defs Let_def)

lemma submitted_exported:
  assumes "submitted pfx po cn r w"
  shows "deliver pfx (ParentExported h) w = w"
  using assms by (auto simp: deliver_def submitted_def)

lemma submitted_deliver:
  assumes "submitted pfx po cn r w"
  shows "phase_inv pfx po cn r (deliver pfx ev w)"
proof (cases ev)
  case (Response path st ds)
  show ?thesis
  proof (cases "path = path_of pfx po r")
    case True
    with Response submitted_response [OF assms, of st ds] show ?thesis
      by (auto simp: phase_inv_def)
  next
    case False
    with Response submitted_response_other [OF assms False] assms show ?thesis
      by (simp add: phase_inv_def)
  qed
next
  case Cancelled
  show ?thesis
  proof (cases cn)
    case None
    with Cancelled assms submitted_cancelled_None [of pfx po r w] show ?thesis
      by (simp add: phase_inv_def)
  next
    case (Some x)
    with Cancelled assms submitted_cancelled_Some [of pfx po x r w] show ?thesis
      by (simp add: phase_inv_def)
  qed
next
  case (Returned err)
  with submitted_returned [OF assms, of err] show ?thesis by (auto simp: phase_inv_def)
next
  case (ParentExported h)
  with submitted_exported [OF assms] assms show ?thesis by (simp add: phase_inv_def)
qed

lemma resolved_deliver:
  assumes "resolved w"
  shows "crashed (deliver pfx ev w) \<or> resolved (deliver pfx ev w)"
  using assms
  by (cases ev)
     (auto simp: deliver_def resolved_def usb_call_returned_def fault_def split: option.splits)


lemma phase_inv_deliver:
  assumes "phase_inv pfx po cn r w"
  shows "phase_inv pfx po cn r (deliver pfx ev w)"
proof -
  from assms consider "crashed w" | "submitted pfx po cn r w" | "resolved w"
    by (auto simp: phase_inv_def)
  then show ?thesis
  proof cases
    case 1
    then show ?thesis by (simp add: crashed_deliver phase_inv_def)
  next
    case 2
    then show ?thesis by (rule submitted_deliver)
  next
    case 3
    from resolved_deliver [OF this, of pfx ev] 3 show ?thesis by (auto simp: phase_inv_def)
  qed
qed

lemma phase_inv_run:
  "phase_inv pfx po cn r w \<Longrightarrow> phase_inv pfx po cn r (run pfx evs w)"
  by (induction evs rule: rev_induct) (simp_all add: run_Nil run_snoc phase_inv_deliver)

lemma phase_inv_start:
  "phase_inv pfx po cn r (xdp_portal_usb_acquire_devices pfx (Some po) par devs cn (world0 m r))"
proof (cases "g_ptr_array_copy devs m")
  case None
  then show ?thesis
    by (simp add: phase_inv_def xdp_portal_usb_acquire_devices_def world0_def fault_def)
next
  case (Some a)
  then obtain cp m' where cp: "g_ptr_array_copy devs m = Some (cp, m')" by (cases a) auto
  show ?thesis
  proof (cases par)
    case (Some p)
    then show ?thesis
      by (simp add: start_with_parent [OF cp] phase_inv_def)
  next
    case None
    then show ?thesis
      by (cases cn)
         (auto simp: phase_inv_def submitted_def xdp_portal_usb_acquire_devices_def cp world0_def
            acquire_devices_def prim_defs obs_defs Let_def path_of_def split: option.splits)
  qed
qed

lemma exported_ignored:
  assumes "phase_inv pfx po cn r w"
  shows "deliver pfx (ParentExported h) w = w"
  using assms
  by (auto simp: phase_inv_def submitted_def resolved_def deliver_def)


subsection \<open>Phases of a CreateSession call\<close>









subsection \<open>Cancellation\<close>





subsection \<open>The parent export comes first\<close>

text \<open>
  Claim C9 holds without a parent (the request is sent at once, with the empty handle)
  and does not hold with one. Starting an acquisition for a parent window starts the
  export and then returns from \<open>acquire_devices\<close> through the cleanups of two locals
  that were never assigned: from there on the behaviour of the program is undefined, and
  no run of events, the export callback included, is known to send the request with the
  exported handle.
\<close>

theorem acquire_with_parent_faults_at_start:
  "crashed (xdp_portal_usb_acquire_devices pfx (Some po) (Some p) devs cn (world0 m r))
   \<and> requests (trace (run pfx evs
        (xdp_portal_usb_acquire_devices pfx (Some po) (Some p) devs cn (world0 m r)))) = []
   \<and> trace (run ''/request/'' [ParentExported (Some ''x11:1'')]
              (example_start (Some (XdpParent 0)) None))
     = [ParentExport (XdpParent 0), InvalidAccess]
   \<and> trace (example_start None None)
     = [SignalSubscribe 1 ''/request/1_42/portal7'',
        CallAcquireDevices [] [(''usb:001'', [(''writable'', VBool True)])]
          [(''handle_token'', VString ''portal7'')]]"
proof -
  let ?w = "xdp_portal_usb_acquire_devices pfx (Some po) (Some p) devs cn (world0 m r)"
  have cr: "crashed ?w \<and> requests (trace ?w) = []"
  proof (cases "g_ptr_array_copy devs m")
    case None
    then show ?thesis
      by (simp add: xdp_portal_usb_acquire_devices_def world0_def fault_def obs_defs)
  next
    case (Some a)
    then obtain cp m' where cp: "g_ptr_array_copy devs m = Some (cp, m')" by (cases a) auto
    show ?thesis by (simp add: start_with_parent [OF cp] obs_defs)
  qed
  then have "run pfx evs ?w = ?w" by (simp add: crashed_run)
  with cr have g: "crashed ?w \<and> requests (trace (run pfx evs ?w)) = []" by simp
  have e1: "trace (run ''/request/'' [ParentExported (Some ''x11:1'')]
              (example_start (Some (XdpParent 0)) None))
     = [ParentExport (XdpParent 0), InvalidAccess]"
    by code_simp
  have e2: "trace (example_start None None)
     = [SignalSubscribe 1 ''/request/1_42/portal7'',
        CallAcquireDevices [] [(''usb:001'', [(''writable'', VBool True)])]
          [(''handle_token'', VString ''portal7'')]]"
    by code_simp
  from g e1 e2 show ?thesis by simp
qed


subsection \<open>Subscription before request\<close>

lemma monitor_hooks: "foldl (monitor_step base) s (map HandlerConnect hs) = s"
  by (induction hs arbitrary: s) (simp_all add: monitor_step_def)

lemma monitor_submit:
  assumes "subscribed_before_request base tr"
  shows "subscribed_before_request base
           (tr @ [SignalSubscribe i (base @ t)] @ map HandlerConnect hs
               @ [CallAcquireDevices h pl [(''handle_token'', VString t)]])"
  using assms
  by (simp add: subscribed_before_request_def monitor_hooks)
     (simp add: monitor_step_def g_variant_lookup_s_def)

lemma deliver_monitor:
  assumes "subscribed_before_request base (trace w)" "\<forall>h. ev \<noteq> ParentExported h"
  shows "subscribed_before_request base (trace (deliver pfx ev w))"
  using assms
  by (cases ev)
     (auto simp: subscribed_before_request_def monitor_step_def deliver_def
        acquire_response_received_def acquire_cancelled_cb_def usb_call_returned_def
        prim_defs Let_def split: option.splits)

lemma start_monitor:
  "subscribed_before_request (pfx @ sender po @ ''/'')
     (trace (xdp_portal_usb_acquire_devices pfx (Some po) par devs cn (world0 m r)))"
proof (cases "g_ptr_array_copy devs m")
  case None
  then show ?thesis
    by (simp add: xdp_portal_usb_acquire_devices_def world0_def fault_def
        subscribed_before_request_def monitor_step_def)
next
  case (Some a)
  then obtain cp m' where cp: "g_ptr_array_copy devs m = Some (cp, m')" by (cases a) auto
  show ?thesis
  proof (cases par)
    case (Some p)
    then show ?thesis
      by (simp add: start_with_parent [OF cp] subscribed_before_request_def monitor_step_def)
  next
    case None
    show ?thesis
    proof (cases "devices_variant cp m'")
      case None
      with \<open>par = None\<close> show ?thesis
        by (cases cn)
           (auto simp: xdp_portal_usb_acquire_devices_def cp world0_def acquire_devices_def
              prim_defs Let_def subscribed_before_request_def monitor_step_def)
    next
      case (Some pl)
      have e: "subscribed_before_request (pfx @ sender po @ ''/'') []"
        by (simp add: subscribed_before_request_def)
      have "trace (xdp_portal_usb_acquire_devices pfx (Some po) par devs cn (world0 m r)) =
              [] @ [SignalSubscribe 1 ((pfx @ sender po @ ''/'') @ portal_token r)]
                @ map HandlerConnect (case cn of None \<Rightarrow> [] | Some y \<Rightarrow> [2])
                @ [CallAcquireDevices [] pl [(''handle_token'', VString (portal_token r))]]"
        using \<open>par = None\<close> Some
        by (cases cn)
           (simp_all add: xdp_portal_usb_acquire_devices_def cp world0_def
              submit [where pl = pl and h = "[]" and array = cp])
      then show ?thesis
        using monitor_submit [OF e] by simp
    qed
  qed
qed

lemma run_monitor:
  assumes "phase_inv pfx po cn r w" "subscribed_before_request (pfx @ sender po @ ''/'') (trace w)"
  shows "subscribed_before_request (pfx @ sender po @ ''/'') (trace (run pfx evs w))"
proof (induction evs rule: rev_induct)
  case Nil
  show ?case using assms(2) by (simp add: run_Nil)
next
  case (snoc ev evs)
  let ?w = "run pfx evs w"
  have inv: "phase_inv pfx po cn r ?w" by (rule phase_inv_run [OF assms(1)])
  show ?case
  proof (cases "\<exists>h. ev = ParentExported h")
    case False
    then show ?thesis using deliver_monitor [OF snoc.IH, of ev pfx] by (simp add: run_snoc)
  next
    case True
    then obtain h where ev: "ev = ParentExported h" by blast
    from exported_ignored [OF inv, of h] ev snoc.IH show ?thesis by (simp add: run_snoc)
  qed
qed

text \<open>
  Claim C5. In every trace an AcquireDevices call can produce, whatever events arrive,
  each AcquireDevices request is preceded by a Response subscription, still live, on
  the correlation path built from the request's own handle token. So once the request
  is out and nothing has resolved the call, a Response on that path is handled: it
  resolves the call (or ends in the invalid store of the Response decoder).
\<close>

theorem response_subscribed_before_request:
  assumes "w = run pfx evs
                 (xdp_portal_usb_acquire_devices pfx (Some po) par devs cn (world0 m r))"
    and "w' = deliver pfx (Response (path_of pfx po r) st ds) w"
  shows "subscribed_before_request (pfx @ sender po @ ''/'') (trace w)
         \<and> (requests (trace w) \<noteq> [] \<and> resolutions (trace w) = [] \<and> \<not> crashed w
              \<longrightarrow> crashed w' \<or> resolutions (trace w') \<noteq> [])"
proof -
  have inv0: "phase_inv pfx po cn r
                (xdp_portal_usb_acquire_devices pfx (Some po) par devs cn (world0 m r))"
    by (rule phase_inv_start)
  have mon: "subscribed_before_request (pfx @ sender po @ ''/'') (trace w)"
    unfolding assms(1) by (rule run_monitor [OF inv0 start_monitor])
  have inv: "phase_inv pfx po cn r w"
    unfolding assms(1) by (rule phase_inv_run [OF inv0])
  have "crashed w' \<or> resolutions (trace w') \<noteq> []"
    if a: "requests (trace w) \<noteq> []" "resolutions (trace w) = []" "\<not> crashed w"
  proof -
    from inv a have "submitted pfx po cn r w"
      by (auto simp: phase_inv_def resolved_def)
    from submitted_response [OF this, of st ds] show ?thesis
      unfolding assms(2) by (auto simp: resolved_def)
  qed
  with mon show ?thesis by blast
qed

theorem response_subscribed_before_request_witness:
  "subscribed_before_request ''/request/1_42/''
     (trace (run ''/request/'' [Cancelled, Returned None] (example_start None None)))
   \<and> resolutions (trace (deliver ''/request/'' (Response ''/request/1_42/portal7'' 2 [])
         (run ''/request/'' [Cancelled, Returned None] (example_start None None))))
     = [TaskReturnError (GError G_IO_ERROR_FAILED ''Acquire USB devices failed'')]"
proof -
  let ?w = "run ''/request/'' [Cancelled, Returned None] (example_start None None)"
  let ?w' = "deliver ''/request/'' (Response ''/request/1_42/portal7'' 2 []) ?w"
  have p: "path_of ''/request/'' \<lparr>sender = ''1_42''\<rparr> 7 = ''/request/1_42/portal7''"
    by code_simp
  have h: "requests (trace ?w) \<noteq> [] \<and> resolutions (trace ?w) = [] \<and> \<not> crashed ?w"
    by code_simp
  have r: "resolutions (trace ?w')
             = [TaskReturnError (GError G_IO_ERROR_FAILED ''Acquire USB devices failed'')]"
    by code_simp
  from response_subscribed_before_request [of ?w "''/request/''"
      "[Cancelled, Returned None]" "\<lparr>sender = ''1_42''\<rparr>"
      None 2 None example_memory 7 ?w' 2 "[]"] h
  have "subscribed_before_request ''/request/1_42/'' (trace ?w)
        \<and> (crashed ?w' \<or> resolutions (trace ?w') \<noteq> [])"
    by (simp add: example_start_def p)
  with r show ?thesis by simp
qed


subsection \<open>The workflow reads its own copy of the requests\<close>

lemma acquire_devices_mem:
  "mem (acquire_devices pfx w) = mem w
   \<and> (\<forall>c'. call (acquire_devices pfx w) = Some c'
         \<longrightarrow> (\<exists>c. call w = Some c \<and> devices c' = devices c))"
  by (auto simp: acquire_devices_def prim_defs Let_def split: option.splits)

lemma deliver_mem:
  "(mem (deliver pfx ev w) = mem w
      \<and> (\<forall>c'. call (deliver pfx ev w) = Some c'
            \<longrightarrow> (\<exists>c. call w = Some c \<and> devices c' = devices c)))
   \<or> (\<exists>c array. call w = Some c \<and> devices c = Some array \<and> call (deliver pfx ev w) = None
          \<and> mem (deliver pfx ev w) = g_ptr_array_free array (mem w))"
proof (cases ev)
  case (Response path st ds)
  then show ?thesis
    by (auto simp: deliver_def acquire_response_received_def prim_defs Let_def
        split: option.splits)
next
  case Cancelled
  then show ?thesis
    by (auto simp: deliver_def acquire_cancelled_cb_def prim_defs Let_def split: option.splits)
next
  case (Returned err)
  then show ?thesis
    by (auto simp: deliver_def usb_call_returned_def prim_defs Let_def split: option.splits)
next
  case (ParentExported h)
  show ?thesis
  proof (cases "call w")
    case None
    with ParentExported show ?thesis
      by (auto simp: deliver_def parent_exported_def fault_def)
  next
    case (Some c)
    with ParentExported
      acquire_devices_mem [of pfx "w\<lparr>export_pending := False, call := Some (c\<lparr>parent_handle := h\<rparr>)\<rparr>"]
    show ?thesis
      by (auto simp: deliver_def parent_exported_def)
  qed
qed

lemma frame_deliver:
  assumes "heap_ok m" "devices_variant devs m = Some pl"
    and "mem_frame m w" "owns_copy devs m w"
  shows "mem_frame m (deliver pfx ev w) \<and> owns_copy devs m (deliver pfx ev w)"
proof -
  from deliver_mem [of pfx ev w] consider
    (same) "mem (deliver pfx ev w) = mem w"
      "\<forall>c'. call (deliver pfx ev w) = Some c' \<longrightarrow> (\<exists>c. call w = Some c \<and> devices c' = devices c)"
    | (freed) c array where "call w = Some c" "devices c = Some array"
      "call (deliver pfx ev w) = None"
      "mem (deliver pfx ev w) = g_ptr_array_free array (mem w)"
    by blast
  then show ?thesis
  proof cases
    case same
    with assms(3,4) show ?thesis by (auto simp: mem_frame_def owns_copy_def)
  next
    case freed
    from assms(4) freed(1,2) have cp: "g_ptr_array_copy devs m = Some (array, mem w)"
      by (simp add: owns_copy_def)
    from g_ptr_array_copy_ok [OF assms(1,2)] cp
    have "array = brk m"
      "\<forall>a<brk m. cells (g_ptr_array_free (brk m) (mem w)) a = cells (mem w) a"
      by auto
    with freed assms(3) show ?thesis by (simp add: mem_frame_def owns_copy_def)
  qed
qed

lemma frame_run:
  assumes "heap_ok m" "devices_variant devs m = Some pl"
    and "mem_frame m w" "owns_copy devs m w"
  shows "mem_frame m (run pfx evs w) \<and> owns_copy devs m (run pfx evs w)"
proof (induction evs rule: rev_induct)
  case Nil
  show ?case using assms(3,4) by (simp add: run_Nil)
next
  case (snoc ev evs)
  then show ?case using frame_deliver [OF assms(1,2), of "run pfx evs w" pfx ev]
    by (simp add: run_snoc)
qed

text \<open>
  Claim C10. Let the caller's array \<open>devs\<close> be readable in a store \<open>m\<close> that is in
  order, with values \<open>payload\<close> (identifier contents and writable flag of each
  element). Starting the acquisition gives the context an array of its own at a fresh
  address. No run of events changes a cell that existed before the call. Read in the
  new store the copy has the values \<open>payload\<close>; it has them still when the caller has
  released its array and elements, and however else the cells that existed before the
  call are changed: the copy shares nothing with the caller's array, elements or
  strings. Whenever \<open>acquire_devices\<close> submits the request for a context that holds
  this copy, in a store that has kept the cells made by the call, the request carries
  \<open>payload\<close>, whatever has become of the caller's cells. Without a parent the request
  is sent by the call itself, with \<open>payload\<close>.
\<close>

theorem acquisition_keeps_private_copy:
  assumes "heap_ok m" and "devices_variant devs m = Some payload"
    and "w1 = xdp_portal_usb_acquire_devices pfx (Some po) par devs cn (world0 m r)"
  shows "mem_frame m (run pfx evs w1)
         \<and> (\<exists>c array. call w1 = Some c \<and> devices c = Some array \<and> brk m \<le> array
               \<and> devices_variant array (mem w1) = Some payload
               \<and> devices_variant array (mem (caller_frees devs w1)) = Some payload
               \<and> (\<forall>m''. (\<forall>a. brk m \<le> a \<longrightarrow> cells m'' a = cells (mem w1) a)
                      \<longrightarrow> devices_variant array m'' = Some payload)
               \<and> (\<forall>w2 c2 h. call w2 = Some c2 \<and> devices c2 = Some array
                        \<and> parent_handle c2 = Some h
                        \<and> (\<forall>a. brk m \<le> a \<longrightarrow> cells (mem w2) a = cells (mem w1) a)
                      \<longrightarrow> requests (trace (acquire_devices pfx w2))
                            = requests (trace w2)
                              @ [CallAcquireDevices h payload
                                   [(''handle_token'', VString (portal_token (random w2)))]]))
         \<and> (par = None \<longrightarrow>
               requests (trace w1)
                 = [CallAcquireDevices [] payload [(''handle_token'', VString (portal_token r))]])"
proof -
  from g_ptr_array_copy_ok [OF assms(1,2)] obtain m' where
    cp: "g_ptr_array_copy devs m = Some (brk m, m')"
    and old: "\<forall>a<brk m. cells m' a = cells m a"
    and rd: "\<forall>m''. (\<forall>a. brk m \<le> a \<longrightarrow> cells m'' a = cells m' a)
                  \<longrightarrow> devices_variant (brk m) m'' = Some payload"
    by blast
  from rd have rd': "devices_variant (brk m) m' = Some payload" by blast
  have rdf: "devices_variant (brk m) (g_ptr_array_free devs m') = Some payload"
    using rd g_ptr_array_free_frame [OF assms(1,2) old] by blast
  have shape: "mem w1 = m' \<and> (\<exists>c. call w1 = Some c \<and> devices c = Some (brk m))"
  proof (cases par)
    case (Some p)
    then show ?thesis unfolding assms(3) by (simp add: start_with_parent [OF cp])
  next
    case None
    then show ?thesis unfolding assms(3)
      by (cases cn)
         (simp_all add: xdp_portal_usb_acquire_devices_def cp world0_def
            submit [where pl = payload and h = "[]" and array = "brk m"] rd')
  qed
  then obtain c where c: "call w1 = Some c" "devices c = Some (brk m)" and m1: "mem w1 = m'"
    by blast
  have f0: "mem_frame m w1" using old m1 by (simp add: mem_frame_def)
  have o0: "owns_copy devs m w1" using c m1 cp by (simp add: owns_copy_def)
  have part1: "mem_frame m (run pfx evs w1)"
    using frame_run [OF assms(1,2) f0 o0] by simp
  have sub: "requests (trace (acquire_devices pfx w2))
               = requests (trace w2)
                 @ [CallAcquireDevices h payload
                      [(''handle_token'', VString (portal_token (random w2)))]]"
    if w2: "call w2 = Some c2" "devices c2 = Some (brk m)" "parent_handle c2 = Some h"
      and ag: "\<forall>a. brk m \<le> a \<longrightarrow> cells (mem w2) a = cells (mem w1) a"
    for w2 c2 h
  proof -
    from rd ag m1 have "devices_variant (brk m) (mem w2) = Some payload" by simp
    from submit [OF w2(1) w2(3) w2(2) this, of pfx] show ?thesis
      by (cases "task_cancellable (task c2)") (simp_all add: obs_defs)
  qed
  have part2: "\<exists>c array. call w1 = Some c \<and> devices c = Some array \<and> brk m \<le> array
               \<and> devices_variant array (mem w1) = Some payload
               \<and> devices_variant array (mem (caller_frees devs w1)) = Some payload
               \<and> (\<forall>m''. (\<forall>a. brk m \<le> a \<longrightarrow> cells m'' a = cells (mem w1) a)
                      \<longrightarrow> devices_variant array m'' = Some payload)
               \<and> (\<forall>w2 c2 h. call w2 = Some c2 \<and> devices c2 = Some array
                        \<and> parent_handle c2 = Some h
                        \<and> (\<forall>a. brk m \<le> a \<longrightarrow> cells (mem w2) a = cells (mem w1) a)
                      \<longrightarrow> requests (trace (acquire_devices pfx w2))
                            = requests (trace w2)
                              @ [CallAcquireDevices h payload
                                   [(''handle_token'', VString (portal_token (random w2)))]])"
    using c m1 rd rd' rdf sub by (simp add: caller_frees_def)
  have part3: "requests (trace w1)
                 = [CallAcquireDevices [] payload [(''handle_token'', VString (portal_token r))]]"
    if "par = None"
    using that unfolding assms(3)
    by (cases cn)
       (simp_all add: xdp_portal_usb_acquire_devices_def cp world0_def
          submit [where pl = payload and h = "[]" and array = "brk m"] rd' obs_defs)
  from part1 part2 part3 show ?thesis by blast
qed

theorem acquisition_keeps_private_copy_witness:
  "mem_frame example_memory
     (run ''/request/'' [Returned None, Cancelled] (example_start None (Some (GCancellable 0))))
   \<and> requests (trace (example_start None (Some (GCancellable 0))))
     = [CallAcquireDevices [] [(''usb:001'', [(''writable'', VBool True)])]
          [(''handle_token'', VString ''portal7'')]]
   \<and> map_option devices (call (example_start None (Some (GCancellable 0)))) = Some (Some 3)
   \<and> devices_variant 3 (mem (caller_frees 2 (example_start None (Some (GCancellable 0)))))
     = Some [(''usb:001'', [(''writable'', VBool True)])]
   \<and> map (cells (mem (caller_frees 2 (example_start None (Some (GCancellable 0))))))
        [0, 1, 2, 3, 4, 5]
     = [None, None, None, Some (PtrArray [4] True), Some (Req (Some 5) True), Some (Str ''usb:001'')]
   \<and> requests (trace (acquire_devices ''/request/''
                  (caller_frees 2 (example_start None (Some (GCancellable 0))))))
     = requests (trace (caller_frees 2 (example_start None (Some (GCancellable 0)))))
       @ [CallAcquireDevices [] [(''usb:001'', [(''writable'', VBool True)])]
            [(''handle_token'', VString ''portal7'')]]"
proof -
  let ?w1 = "example_start None (Some (GCancellable 0))"
  let ?w2 = "caller_frees 2 ?w1"
  let ?payload = "[(''usb:001'', [(''writable'', VBool True)])]"
  have ok: "heap_ok example_memory"
    and rd: "devices_variant 2 example_memory = Some ?payload"
    using example_memory_ok by simp_all
  have b3: "brk example_memory = 3" by (simp add: example_memory_def)
  have t: "portal_token 7 = ''portal7''" by code_simp
  have dv: "map_option devices (call ?w1) = Some (Some 3)"
    by code_simp
  have ph: "map_option parent_handle (call ?w1) = Some (Some [])"
    by code_simp
  have rn: "random ?w2 = 7"
    by code_simp
  have cellsv: "map (cells (mem ?w2)) [0, 1, 2, 3, 4, 5]
     = [None, None, None, Some (PtrArray [4] True), Some (Req (Some 5) True), Some (Str ''usb:001'')]"
    by code_simp
  note th = acquisition_keeps_private_copy [OF ok rd refl,
      of "''/request/''" _ "\<lparr>sender = ''1_42''\<rparr>" None "Some (GCancellable 0)" 7,
      folded example_start_def]
  from th [of "[Returned None, Cancelled]"]
  have fr: "mem_frame example_memory (run ''/request/'' [Returned None, Cancelled] ?w1)"
    and rq: "requests (trace ?w1) = [CallAcquireDevices [] ?payload [(''handle_token'', VString ''portal7'')]]"
    by (simp_all add: t)
  from th [of "[]"] have old: "\<forall>a<brk example_memory. cells (mem ?w1) a = cells example_memory a"
    by (simp add: mem_frame_def run_Nil)
  have ag: "\<forall>a. brk example_memory \<le> a \<longrightarrow> cells (mem ?w2) a = cells (mem ?w1) a"
    using g_ptr_array_free_frame [OF ok rd old] by (simp add: caller_frees_def)
  from th [of "[]"] obtain c array where c: "call ?w1 = Some c" "devices c = Some array"
    and rf: "devices_variant array (mem ?w2) = Some ?payload"
    and sub: "\<forall>w2 c2 h. call w2 = Some c2 \<and> devices c2 = Some array
                        \<and> parent_handle c2 = Some h
                        \<and> (\<forall>a. brk example_memory \<le> a \<longrightarrow> cells (mem w2) a = cells (mem ?w1) a)
                      \<longrightarrow> requests (trace (acquire_devices ''/request/'' w2))
                            = requests (trace w2)
                              @ [CallAcquireDevices h ?payload
                                   [(''handle_token'', VString (portal_token (random w2)))]]"
    by blast
  from c dv have a3: "array = 3" by simp
  from c ph have h0: "parent_handle c = Some []" by simp
  have c2: "call ?w2 = Some c" using c(1) by (simp add: caller_frees_def)
  from sub c2 c(2) h0 ag
  have "requests (trace (acquire_devices ''/request/'' ?w2))
          = requests (trace ?w2)
            @ [CallAcquireDevices [] ?payload
                 [(''handle_token'', VString (portal_token (random ?w2)))]]"
    by blast
  then have again: "requests (trace (acquire_devices ''/request/'' ?w2))
          = requests (trace ?w2)
            @ [CallAcquireDevices [] ?payload [(''handle_token'', VString ''portal7'')]]"
    by (simp only: rn t)
  from rf a3 have "devices_variant 3 (mem ?w2) = Some ?payload" by simp
  with fr rq dv cellsv again show ?thesis by simp
qed


subsection \<open>Resolution of the call\<close>

text \<open>
  Claim C1 (one resolution per context, nothing delivered after its teardown) does not
  hold of the code. \<open>acquire_devices\<close> issues the method call without a cancellable
  and with \<open>usb_call_returned\<close> as its callback; \<open>usb_call_free\<close> drops the signal
  subscription and the cancellation hook, but the pending reply still holds the
  pointer to the context. When the caller cancels and the method call then fails, the
  cancellation resolves the task and frees the context, and the reply callback
  afterwards reads the freed context to resolve the task a second time.
\<close>

theorem reply_error_after_cancel_uses_freed_context:
  "trace (run ''/request/''
            [Cancelled, Returned (Some (GError (G_IO_ERROR_OTHER 0) ''access denied''))]
            (example_start None (Some (GCancellable 0))))
   = [SignalSubscribe 1 ''/request/1_42/portal7'', HandlerConnect 2,
      CallAcquireDevices [] [(''usb:001'', [(''writable'', VBool True)])]
        [(''handle_token'', VString ''portal7'')],
      CallClose (Some ''/request/1_42/portal7''),
      TaskReturnError (GError G_IO_ERROR_CANCELLED ''Acquire USB devices call canceled by caller''),
      SignalUnsubscribe 1, HandlerDisconnect 2, CallFree, UseAfterFree]"
  by code_simp

lemma acquire_response_devices_no_descriptor:
  "acquire_response_devices devs acc = None \<or> acquire_response_devices devs acc = Some acc"
  by (induction devs acc rule: acquire_response_devices.induct)
     (auto split: option.splits)

text \<open>
  Claim C7 holds for status 1 and for the other non-zero statuses, and does not hold
  for status 0: the loop either leaves the list as it was or ends in the invalid store,
  so the list handed to the task never holds a descriptor. A Response with status 0
  for a granted device with descriptor 7 does not resolve the call.
\<close>

theorem response_status_0_never_returns_descriptor:
  "(acquire_response_devices devs [] = None \<or> acquire_response_devices devs [] = Some [])
   \<and> trace (run ''/request/''
              [Response ''/request/1_42/portal7'' 0
                 [(''usb:001'', [(''success'', VBool True), (''fd'', VHandle 7)])]]
              (example_start None None))
     = [SignalSubscribe 1 ''/request/1_42/portal7'',
        CallAcquireDevices [] [(''usb:001'', [(''writable'', VBool True)])]
          [(''handle_token'', VString ''portal7'')],
        InvalidAccess]"
proof -
  have "trace (run ''/request/''
              [Response ''/request/1_42/portal7'' 0
                 [(''usb:001'', [(''success'', VBool True), (''fd'', VHandle 7)])]]
              (example_start None None))
     = [SignalSubscribe 1 ''/request/1_42/portal7'',
        CallAcquireDevices [] [(''usb:001'', [(''writable'', VBool True)])]
          [(''handle_token'', VString ''portal7'')],
        InvalidAccess]"
    by code_simp
  with acquire_response_devices_no_descriptor [of devs "[]"] show ?thesis by simp
qed

text \<open>
  Claim C4 (a denied device is reported as the one element of the result list, with
  its identifier, success false, descriptor \<open>-1\<close> and the error \<open>"denied"\<close>) does not
  hold of the code. The list the Response handler hands to the task is a list of
  descriptors, and its loop skips a device that is not reported with
  \<open>success = true\<close>: for the one denied device the list stays empty. The record the
  claim describes is what \<open>xdp_usb_device_error_new\<close> builds in the body of the loop
  of \<open>append_variant_to_fd_list\<close>, which only the finishing query runs.
\<close>

theorem response_loop_skips_denied_device:
  "acquire_response_devices
     ((i, [(''success'', VBool False), (''error'', VString ''denied'')]) # rest) device_list
     = acquire_response_devices rest device_list
   \<and> acquire_response_devices
       [(''usb:001'', [(''success'', VBool False), (''error'', VString ''denied'')])] []
     = Some []
   \<and> device_of_entry (i, [(''success'', VBool False), (''error'', VString ''denied'')])
     = xdp_usb_device_error_new i (Some ''denied'')
   \<and> xdp_usb_device_error_new i (Some ''denied'')
     = \<lparr>usb_id = i, success = False, fd = - 1, error = Some ''denied''\<rparr>"
  by (simp add: g_variant_lookup_b_def g_variant_lookup_h_def g_variant_lookup_s_def
      device_of_entry_def xdp_usb_device_error_new_def)


section \<open>Properties of the session lifecycle\<close>

lemmas session_defs = update_session_def update_usb_session_def xdp_session_new_def
  xdp_session_close_def parent_session_destroy_def session_ref_def session_unref_def
  device_events_subscribe_def device_events_unsubscribe_def

lemma new_created:
  "xdp_usb_session_new po path w0 = (Suc (next_obj w0), created po path 0 False w0)"
  by (simp add: xdp_usb_session_new_def session_defs created_def)

lemma keeps_created:
  "caller_keeps_session n (Suc (next_obj w0)) (created po path 0 False w0)
     = created po path n False w0"
proof -
  have "(session_ref (next_obj w0) ^^ n) (created po path 0 False w0) = created po path n False w0"
    by (induction n) (simp_all add: session_defs created_def)
  then show ?thesis
    by (simp add: caller_keeps_session_def xdp_usb_session_get_session_def created_def)
qed

lemma close_created:
  "xdp_usb_session_close (Suc (next_obj w0)) (created po path n cl w0) = created po path n True w0"
  by (simp add: xdp_usb_session_close_def session_defs created_def)

lemma unref_created:
  assumes "fresh_world w0"
  shows "usb_session_unref (Suc (next_obj w0)) (created po path n cl w0) =
     w0\<lparr>sessions := (if n = 0 then sessions w0
                       else (sessions w0)(next_obj w0 \<mapsto>
                              \<lparr>session_portal = po, session_path = path, usb_session = None,
                               session_refs = n, weak_refs = [], closed = cl\<rparr>)),
        device_events := device_events w0,
        next_sub := Suc (next_sub w0),
        next_obj := Suc (Suc (next_obj w0)),
        slog := slog w0 @ [Subscribed (next_sub w0), Unsubscribed (next_sub w0)]\<rparr>"
proof -
  from assms have f: "(usb_sessions w0)(Suc (next_obj w0) := None) = usb_sessions w0"
    "(sessions w0)(next_obj w0 := None) = sessions w0"
    "removeAll (next_sub w0) (device_events w0) = device_events w0"
    "next_sub w0 \<noteq> 0"
    by (auto simp: fresh_world_def)
  show ?thesis
  proof (cases n)
    case 0
    then show ?thesis
      by (simp add: usb_session_unref_def xdp_usb_session_finalize_def session_defs created_def f)
  next
    case (Suc k)
    then show ?thesis
      by (simp add: usb_session_unref_def xdp_usb_session_finalize_def session_defs created_def f)
  qed
qed

text \<open>
  Claim C8 as stated does not hold when the Session outlives its USB Session. Take the
  USB Session of the example, of whose Session the caller keeps a reference. Closing it
  and then dropping its last reference leaves the Session marked Closed; dropping its
  last reference directly leaves the Session not Closed. The two final states differ.
\<close>

theorem close_then_destroy_leaves_closed_mark:
  "usb_session_unref 1 (xdp_usb_session_close 1 example_kept_session)
     \<noteq> usb_session_unref 1 example_kept_session
   \<and> sessions (usb_session_unref 1 (xdp_usb_session_close 1 example_kept_session)) 0
     = Some \<lparr>session_portal = \<lparr>sender = ''1_42''\<rparr>, session_path = ''/session/1'',
              usb_session = None, session_refs = 1, weak_refs = [], closed = True\<rparr>
   \<and> sessions (usb_session_unref 1 example_kept_session) 0
     = Some \<lparr>session_portal = \<lparr>sender = ''1_42''\<rparr>, session_path = ''/session/1'',
              usb_session = None, session_refs = 1, weak_refs = [], closed = False\<rparr>"
proof -
  have a: "sessions (usb_session_unref 1 (xdp_usb_session_close 1 example_kept_session)) 0
     = Some \<lparr>session_portal = \<lparr>sender = ''1_42''\<rparr>, session_path = ''/session/1'',
              usb_session = None, session_refs = 1, weak_refs = [], closed = True\<rparr>"
    by code_simp
  have b: "sessions (usb_session_unref 1 example_kept_session) 0
     = Some \<lparr>session_portal = \<lparr>sender = ''1_42''\<rparr>, session_path = ''/session/1'',
              usb_session = None, session_refs = 1, weak_refs = [], closed = False\<rparr>"
    by code_simp
  have "usb_session_unref 1 (xdp_usb_session_close 1 example_kept_session)
     \<noteq> usb_session_unref 1 example_kept_session"
  proof
    assume "usb_session_unref 1 (xdp_usb_session_close 1 example_kept_session)
              = usb_session_unref 1 example_kept_session"
    then have "sessions (usb_session_unref 1 (xdp_usb_session_close 1 example_kept_session)) 0
                 = sessions (usb_session_unref 1 example_kept_session) 0"
      by simp
    with a b show False by simp
  qed
  with a b show ?thesis by simp
qed

text \<open>
  Claim C8, as the code has it. Take a USB Session \<open>u\<close> just created in a state
  where its addresses and its subscription id are unused, with Session \<open>p\<close>, of which
  the caller keeps \<open>n\<close> references of its own. Let \<open>a\<close> be the state
  after closing \<open>u\<close> and then dropping its last reference, and \<open>b\<close> the state after
  dropping its last reference directly. When the USB Session held the only reference
  to the Session, \<open>a\<close> and \<open>b\<close> are the same state. In general \<open>b\<close> with the
  Session \<open>p\<close>, where it is still there, marked Closed, is \<open>a\<close>: the two agree on the USB
  Sessions, on every other Session, on every other field of \<open>p\<close>, on the
  subscriptions, the counters and the log, and when the caller keeps the Session they
  differ in its Closed mark. After either teardown the USB Session is gone; the
  Session, if the caller kept it, has no back-reference and no weak reference left;
  the DeviceEvents subscription is off the bus, and the log shows its one subscription
  followed by exactly one unsubscription.
\<close>

theorem usb_session_teardown:
  assumes "fresh_world w0"
    and "w = caller_keeps_session n (fst (xdp_usb_session_new po path w0))
               (snd (xdp_usb_session_new po path w0))"
    and "u = fst (xdp_usb_session_new po path w0)"
    and "xdp_usb_session_get_session u w = Some p"
    and "a = usb_session_unref u (xdp_usb_session_close u w)"
    and "b = usb_session_unref u w"
  shows "(n = 0 \<longrightarrow> a = b)
         \<and> update_session p (\<lambda>s. s\<lparr>closed := True\<rparr>) b = a
         \<and> (0 < n \<longrightarrow> map_option closed (sessions a p) = Some True
                      \<and> map_option closed (sessions b p) = Some False)
         \<and> usb_sessions a u = None \<and> usb_sessions b u = None
         \<and> (\<forall>s. sessions a p = Some s \<or> sessions b p = Some s
                \<longrightarrow> usb_session s = None \<and> weak_refs s = [] \<and> session_refs s = n)
         \<and> (sessions a p = None) = (n = 0) \<and> (sessions b p = None) = (n = 0)
         \<and> slog a = slog w0 @ [Subscribed (next_sub w0), Unsubscribed (next_sub w0)]
         \<and> slog b = slog a
         \<and> count_list (slog a) (Unsubscribed (next_sub w0)) = 1
         \<and> device_events a = device_events w0 \<and> device_events b = device_events w0"
proof -
  have u: "u = Suc (next_obj w0)" and w: "w = created po path n False w0"
    using assms(2,3) by (simp_all add: new_created keeps_created)
  have a: "a = w0\<lparr>sessions := (if n = 0 then sessions w0
                       else (sessions w0)(next_obj w0 \<mapsto>
                              \<lparr>session_portal = po, session_path = path, usb_session = None,
                               session_refs = n, weak_refs = [], closed = True\<rparr>)),
        device_events := device_events w0,
        next_sub := Suc (next_sub w0),
        next_obj := Suc (Suc (next_obj w0)),
        slog := slog w0 @ [Subscribed (next_sub w0), Unsubscribed (next_sub w0)]\<rparr>"
    unfolding assms(5) u w close_created by (rule unref_created [OF assms(1)])
  have b: "b = w0\<lparr>sessions := (if n = 0 then sessions w0
                       else (sessions w0)(next_obj w0 \<mapsto>
                              \<lparr>session_portal = po, session_path = path, usb_session = None,
                               session_refs = n, weak_refs = [], closed = False\<rparr>)),
        device_events := device_events w0,
        next_sub := Suc (next_sub w0),
        next_obj := Suc (Suc (next_obj w0)),
        slog := slog w0 @ [Subscribed (next_sub w0), Unsubscribed (next_sub w0)]\<rparr>"
    unfolding assms(6) u w by (rule unref_created [OF assms(1)])
  have p: "p = next_obj w0"
    using assms(4) by (simp add: u w xdp_usb_session_get_session_def created_def)
  have f: "sessions w0 (next_obj w0) = None" "usb_sessions w0 (Suc (next_obj w0)) = None"
    "Unsubscribed (next_sub w0) \<notin> set (slog w0)"
    using assms(1) by (simp_all add: fresh_world_def)
  have c1: "n = 0 \<longrightarrow> a = b" by (simp add: a b)
  have c2: "update_session p (\<lambda>s. s\<lparr>closed := True\<rparr>) b = a"
    using f(1) by (simp add: a b p update_session_def)
  have c3: "0 < n \<longrightarrow> map_option closed (sessions a p) = Some True
                      \<and> map_option closed (sessions b p) = Some False"
    by (simp add: a b p)
  have c4: "usb_sessions a u = None" "usb_sessions b u = None" by (simp_all add: a b u f)
  have c5: "\<forall>s. sessions a p = Some s \<or> sessions b p = Some s
                \<longrightarrow> usb_session s = None \<and> weak_refs s = [] \<and> session_refs s = n"
    using f by (auto simp: p a b split: if_splits)
  have c6: "(sessions a p = None) = (n = 0)" "(sessions b p = None) = (n = 0)"
    using f by (auto simp: p a b)
  have c7: "slog a = slog w0 @ [Subscribed (next_sub w0), Unsubscribed (next_sub w0)]"
    "slog b = slog a" "device_events a = device_events w0" "device_events b = device_events w0"
    by (simp_all add: a b)
  have c8: "count_list (slog a) (Unsubscribed (next_sub w0)) = 1"
    using f(3) by (simp add: c7(1))
  from c1 c2 c3 c4 c5 c6 c7 c8 show ?thesis by blast
qed

theorem usb_session_teardown_witness:
  "fresh_world empty_session_world
   \<and> xdp_usb_session_get_session 1 example_kept_session = Some 0
   \<and> update_session 0 (\<lambda>s. s\<lparr>closed := True\<rparr>) (usb_session_unref 1 example_kept_session)
     = usb_session_unref 1 (xdp_usb_session_close 1 example_kept_session)
   \<and> map_option closed
       (sessions (usb_session_unref 1 (xdp_usb_session_close 1 example_kept_session)) 0)
     = Some True
   \<and> map_option closed (sessions (usb_session_unref 1 example_kept_session) 0) = Some False
   \<and> usb_sessions (usb_session_unref 1 (xdp_usb_session_close 1 example_kept_session)) 1 = None
   \<and> slog (usb_session_unref 1 (xdp_usb_session_close 1 example_kept_session))
     = [Subscribed 1, Unsubscribed 1]
   \<and> slog (usb_session_unref 1 example_kept_session) = [Subscribed 1, Unsubscribed 1]
   \<and> device_events (usb_session_unref 1 example_kept_session) = []
   \<and> usb_session_unref 1 (xdp_usb_session_close 1
         (snd (xdp_usb_session_new \<lparr>sender = ''1_42''\<rparr> ''/session/1'' empty_session_world)))
     = usb_session_unref 1
         (snd (xdp_usb_session_new \<lparr>sender = ''1_42''\<rparr> ''/session/1'' empty_session_world))"
proof -
  let ?new = "xdp_usb_session_new \<lparr>sender = ''1_42''\<rparr> ''/session/1'' empty_session_world"
  have fr: "fresh_world empty_session_world"
    by (simp add: fresh_world_def empty_session_world_def)
  have u: "fst ?new = 1"
    by (simp add: new_created empty_session_world_def)
  have e: "slog empty_session_world = []" "next_sub empty_session_world = 1"
    "device_events empty_session_world = []"
    by (simp_all add: empty_session_world_def)
  have g: "xdp_usb_session_get_session 1 example_kept_session = Some 0"
    by code_simp
  from g have g': "xdp_usb_session_get_session (fst ?new)
                     (caller_keeps_session 1 (fst ?new) (snd ?new)) = Some 0"
    by (simp add: example_kept_session_def u)
  have k0: "caller_keeps_session 0 x y = y" for x y
    by (simp add: caller_keeps_session_def split: option.splits)
  have g0: "xdp_usb_session_get_session 1 (snd ?new) = Some 0"
    by code_simp
  then have g0': "xdp_usb_session_get_session (fst ?new)
                    (caller_keeps_session 0 (fst ?new) (snd ?new)) = Some 0"
    by (simp add: k0 u)
  from usb_session_teardown [OF fr refl refl g0' refl refl]
  have only: "usb_session_unref 1 (xdp_usb_session_close 1 (snd ?new))
                = usb_session_unref 1 (snd ?new)"
    by (simp add: k0 u)
  from usb_session_teardown [OF fr refl refl g' refl refl]
  show ?thesis using fr g only by (simp add: example_kept_session_def u e)
qed


end
